theory Spec2Isabelle
  imports Complex_Main
begin

unbundle bit_operations_syntax

section \<open>Values\<close>

text \<open>
  The label arrays, the interval labels, the durations that are concatenated with
  \<^verbatim>\<open>np.nan\<close>, the feature tables and the adjacency weights are all float64 arrays.
  A float is modelled as one of the three special values or a finite number. Rounding
  is not modelled: a finite result is the exact real number, so a sum or a product of
  finite numbers never overflows to an infinity here, as it does in float64 above
  about \<open>1.8e308\<close>. The sign of zero is not modelled either.
\<close>

datatype fval = NaN | PInf | NInf | Fin real

text \<open>\<^verbatim>\<open>a == b\<close> on floats: NaN is equal to nothing, also not to itself.\<close>

fun feq :: "fval \<Rightarrow> fval \<Rightarrow> bool" where
  "feq NaN _ = False"
| "feq _ NaN = False"
| "feq a b = (a = b)"

text \<open>\<^verbatim>\<open>a != b\<close> on floats.\<close>

definition fne :: "fval \<Rightarrow> fval \<Rightarrow> bool" where
  "fne a b = (\<not> feq a b)"

text \<open>\<^verbatim>\<open>a >= b\<close> on floats: False as soon as one side is NaN.\<close>

fun fge :: "fval \<Rightarrow> fval \<Rightarrow> bool" where
  "fge NaN _ = False"
| "fge _ NaN = False"
| "fge PInf _ = True"
| "fge _ NInf = True"
| "fge NInf _ = False"
| "fge _ PInf = False"
| "fge (Fin a) (Fin b) = (b \<le> a)"

text \<open>\<^verbatim>\<open>a <= b\<close> on floats.\<close>

definition fle :: "fval \<Rightarrow> fval \<Rightarrow> bool" where
  "fle a b = fge b a"

text \<open>\<^verbatim>\<open>a * b\<close> on floats.\<close>

fun fmul :: "fval \<Rightarrow> fval \<Rightarrow> fval" where
  "fmul NaN _ = NaN"
| "fmul _ NaN = NaN"
| "fmul (Fin a) (Fin b) = Fin (a * b)"
| "fmul (Fin a) PInf = (if a = 0 then NaN else if 0 < a then PInf else NInf)"
| "fmul (Fin a) NInf = (if a = 0 then NaN else if 0 < a then NInf else PInf)"
| "fmul PInf (Fin b) = (if b = 0 then NaN else if 0 < b then PInf else NInf)"
| "fmul NInf (Fin b) = (if b = 0 then NaN else if 0 < b then NInf else PInf)"
| "fmul PInf PInf = PInf"
| "fmul PInf NInf = NInf"
| "fmul NInf PInf = NInf"
| "fmul NInf NInf = PInf"


text \<open>
  \<^verbatim>\<open>np.divide(a, n)\<close> and \<^verbatim>\<open>a / n\<close> of numpy scalars, the divisor an integer:
  a division by zero raises nothing, it gives an infinity, or NaN for \<^verbatim>\<open>0 / 0\<close>.
\<close>

fun fdiv_int :: "fval \<Rightarrow> int \<Rightarrow> fval" where
  "fdiv_int NaN n = NaN"
| "fdiv_int PInf n = (if 0 \<le> n then PInf else NInf)"
| "fdiv_int NInf n = (if 0 \<le> n then NInf else PInf)"
| "fdiv_int (Fin a) n =
     (if n = 0 then (if a = 0 then NaN else if 0 < a then PInf else NInf)
      else Fin (a / real_of_int n))"

text \<open>\<^verbatim>\<open>np.isin(x, values)\<close> for one element \<^verbatim>\<open>x\<close>.\<close>

definition isin :: "fval \<Rightarrow> fval list \<Rightarrow> bool" where
  "isin x vs = list_ex (feq x) vs"

text \<open>\<^verbatim>\<open>mask.nonzero()[0]\<close>: the positions of the True entries, ascending.\<close>

definition nonzero :: "bool list \<Rightarrow> nat list" where
  "nonzero msk = filter (\<lambda>i. msk ! i) [0..<length msk]"

datatype py_error = IndexError | KeyError | ValueError | AttributeError | AssertionError

section \<open>The label taxonomy (class XITE)\<close>

definition labels_pain :: "fval list" where
  "labels_pain = map Fin [-1, -2, -3, -4, -5, -6, 1, 2, 3, 4, 5, 6]"

definition labels_base :: "fval list" where
  "labels_base = map Fin [-100, -200, -300, -400, -500, -600, 100, 200, 300, 400, 500, 600]"

section \<open>Interval segmentation\<close>

text \<open>
  \<^verbatim>\<open>np.concatenate(([True], labels[:-1] != labels[1:]))\<close>: frame 0 starts an interval,
  frame \<open>i + 1\<close> starts one when its label differs from the label of frame \<open>i\<close>.
\<close>

definition is_interval_start :: "fval list \<Rightarrow> bool list" where
  "is_interval_start labels = True # map2 fne (butlast labels) (tl labels)"

text \<open>
  The mask of line 325. Python parses
  \<^verbatim>\<open>interval_labels == 0 & np.isin(pre_interval_labels, self.labels_pain)\<close> as
  \<^verbatim>\<open>interval_labels == (0 & np.isin(...))\<close>, since \<^verbatim>\<open>&\<close> binds tighter than
  \<^verbatim>\<open>==\<close>; the right-hand side is the bitwise and of the integer 0 with each truth
  value.
\<close>

definition zero_and :: "bool \<Rightarrow> fval" where
  "zero_and b = Fin (real_of_int ((0::int) AND of_bool b))"

definition is_baseline_interval :: "fval list \<Rightarrow> fval list \<Rightarrow> bool list" where
  "is_baseline_interval interval_labels pre_interval_labels =
     map2 feq interval_labels (map (\<lambda>p. zero_and (isin p labels_pain)) pre_interval_labels)"

text \<open>
  \<^verbatim>\<open>interval_labels[mask] = pre_interval_labels[mask]*100\<close>
\<close>

definition relabel :: "fval list \<Rightarrow> fval list \<Rightarrow> bool list \<Rightarrow> fval list" where
  "relabel interval_labels pre_interval_labels msk =
     map (\<lambda>(l, p, m). if m then fmul p (Fin 100) else l)
       (zip interval_labels (zip pre_interval_labels msk))"

text \<open>
  \<^verbatim>\<open>Subject_Preprocessor._compute_intervals_info\<close>. The result is
  \<open>(start_idxs, end_idxs, interval_labels, durations)\<close>. On an empty label array
  \<^verbatim>\<open>labels[start_idxs]\<close> reads index 0 and raises.
\<close>

definition compute_intervals_info ::
  "fval list \<Rightarrow> py_error + (nat list \<times> nat list \<times> fval list \<times> int list)" where
  "compute_intervals_info labels =
     (if labels = [] then Inl IndexError
      else
        let start_idxs = nonzero (is_interval_start labels);
            end_idxs = nonzero (rotate1 (is_interval_start labels));
            durations = map2 (\<lambda>e s. int e - int s + 1) end_idxs start_idxs;
            interval_labels = map (\<lambda>i. labels ! i) start_idxs;
            pre_interval_labels = NaN # butlast interval_labels;
            msk = is_baseline_interval interval_labels pre_interval_labels
        in Inr (start_idxs, end_idxs,
                relabel interval_labels pre_interval_labels msk, durations))"

section \<open>Slice extraction\<close>

text \<open>
  The slicing settings of the configuration module: dictionaries from the pain group
  (\<^verbatim>\<open>"pH"\<close>, \<^verbatim>\<open>"BpH"\<close>, ...) to a number of seconds.
\<close>

record config =
  slice_shifts :: "string \<rightharpoonup> int"
  slice_lengths :: "string \<rightharpoonup> int"
  interval_min_lengths :: "string \<rightharpoonup> int"
  pre_interval_min_lengths :: "string \<rightharpoonup> int"

text \<open>\<^verbatim>\<open>config_video.py\<close>, lines 149 to 186.\<close>

definition config_video :: config where
  "config_video =
     \<lparr> slice_shifts = map_of [(''pH'', 0), (''pE'', 0), (''tH'', 0), (''tE'', 0),
                              (''BpH'', 4), (''BpE'', 4), (''BtH'', 120), (''BtE'', 120)],
       slice_lengths = map_of [(''pH'', 6), (''pE'', 6), (''tH'', 60), (''tE'', 60),
                               (''BpH'', 6), (''BpE'', 6), (''BtH'', 60), (''BtE'', 60)],
       interval_min_lengths = map_of [(''pH'', 4), (''pE'', 5), (''tH'', 60), (''tE'', 60)],
       pre_interval_min_lengths = map_of [(''pH'', 8), (''pE'', 8), (''tH'', 60), (''tE'', 60)] \<rparr>"

text \<open>A dictionary read \<^verbatim>\<open>d[key]\<close>.\<close>

definition lookup :: "(string \<rightharpoonup> int) \<Rightarrow> string \<Rightarrow> py_error + int" where
  "lookup d key = (case d key of None \<Rightarrow> Inl KeyError | Some v \<Rightarrow> Inr v)"

text \<open>\<^verbatim>\<open>XITE_Preprocessor._get_label_group\<close>\<close>

definition get_label_group :: "int \<Rightarrow> py_error + string" where
  "get_label_group label =
     (if label \<in> set [1, 2, 3] then Inr ''pH''
      else if label \<in> set [-1, -2, -3] then Inr ''pE''
      else if label \<in> set [4, 5, 6] then Inr ''tH''
      else if label \<in> set [-4, -5, -6] then Inr ''tE''
      else if label \<in> set [100, 200, 300] then Inr ''BpH''
      else if label \<in> set [-100, -200, -300] then Inr ''BpE''
      else if label \<in> set [400, 500, 600] then Inr ''BtH''
      else if label \<in> set [-400, -500, -600] then Inr ''BtE''
      else Inl ValueError)"

text \<open>\<^verbatim>\<open>XITE.labels_pain\<close> as the integers the loop of line 276 runs over.\<close>

definition labels_pain_int :: "int list" where
  "labels_pain_int = [-1, -2, -3, -4, -5, -6, 1, 2, 3, 4, 5, 6]"

definition of_ints :: "int list \<Rightarrow> fval list" where
  "of_ints ds = map (\<lambda>d. Fin (real_of_int d)) ds"

text \<open>
  The arrays of lines 265 to 269, computed once before the loop over the pain labels.
\<close>

record intervals =
  start_idxs :: "nat list"
  interval_labels :: "fval list"
  durations :: "int list"
  pre_interval_labels :: "fval list"
  pre_durations :: "fval list"
  post_interval_labels :: "fval list"
  post_durations :: "fval list"

definition intervals_of :: "nat list \<times> nat list \<times> fval list \<times> int list \<Rightarrow> intervals" where
  "intervals_of info =
     (case info of (starts, ends, ils, durs) \<Rightarrow>
        \<lparr> start_idxs = starts, interval_labels = ils, durations = durs,
          pre_interval_labels = NaN # butlast ils,
          pre_durations = NaN # of_ints (butlast durs),
          post_interval_labels = tl ils @ [NaN],
          post_durations = of_ints (tl durs) @ [NaN] \<rparr>)"

text \<open>
  The body of the loop of line 276 for one pain label: the start indices of the pain
  slices and of the baseline slices of that label.
\<close>

definition label_slices ::
  "config \<Rightarrow> int \<Rightarrow> intervals \<Rightarrow> int \<Rightarrow> py_error + (int list \<times> int list)" where
  "label_slices cfg f_sampling iv label =
     (case get_label_group label of
        Inl e \<Rightarrow> Inl e
      | Inr pain_group \<Rightarrow>
         (case (lookup (pre_interval_min_lengths cfg) pain_group,
                lookup (interval_min_lengths cfg) pain_group,
                lookup (slice_shifts cfg) pain_group,
                lookup (slice_lengths cfg) pain_group,
                lookup (slice_shifts cfg) (''B'' @ pain_group),
                lookup (slice_lengths cfg) (''B'' @ pain_group)) of
            (Inr pre_min, Inr int_min, Inr shift, Inr len, Inr bshift, Inr blen) \<Rightarrow>
              let is_pain_intervals =
                    map (\<lambda>k. feq (interval_labels iv ! k) (Fin (real_of_int label))
                            \<and> isin (pre_interval_labels iv ! k) (labels_base @ [Fin 0])
                            \<and> isin (post_interval_labels iv ! k) (labels_base @ [Fin 0])
                            \<and> fge (pre_durations iv ! k) (Fin (real_of_int pre_min))
                            \<and> durations iv ! k \<ge> int_min * f_sampling - 2)
                        [0..<length (interval_labels iv)];
                  pain_interval_ids = nonzero is_pain_intervals;
                  pain_interval_ids' =
                    filter (\<lambda>k. fle (Fin (real_of_int
                                    (shift * f_sampling + len * f_sampling - durations iv ! k)))
                                  (post_durations iv ! k))
                      pain_interval_ids;
                  is_base_intervals =
                    map (\<lambda>k. feq (interval_labels iv ! k) (Fin (real_of_int (label * 100)))
                            \<and> feq (pre_interval_labels iv ! k) (Fin (real_of_int label)))
                        [0..<length (interval_labels iv)];
                  base_interval_ids = nonzero is_base_intervals;
                  base_interval_ids' =
                    filter (\<lambda>k. durations iv ! k \<ge> bshift * f_sampling + blen * f_sampling)
                      base_interval_ids;
                  pain_slice_start_idxs =
                    map (\<lambda>k. int (start_idxs iv ! k) + shift * f_sampling) pain_interval_ids';
                  base_slice_start_idxs =
                    map (\<lambda>k. int (start_idxs iv ! k) + bshift * f_sampling) base_interval_ids'
              in Inr (pain_slice_start_idxs, base_slice_start_idxs)
          | _ \<Rightarrow> Inl KeyError))"

text \<open>
  The loop of line 276: the slices of each label are appended to the two result lists,
  the pain slices first, then the baseline slices with the label \<open>100 * label\<close>.
\<close>

fun slices_loop ::
  "config \<Rightarrow> int \<Rightarrow> intervals \<Rightarrow> int list \<Rightarrow> int list \<times> int list
     \<Rightarrow> py_error + (int list \<times> int list)" where
  "slices_loop cfg f_sampling iv [] acc = Inr acc"
| "slices_loop cfg f_sampling iv (label # rest) (slices_start_idxs, slices_labels) =
     (case label_slices cfg f_sampling iv label of
        Inl e \<Rightarrow> Inl e
      | Inr (pain_starts, base_starts) \<Rightarrow>
          slices_loop cfg f_sampling iv rest
            (slices_start_idxs @ pain_starts @ base_starts,
             slices_labels @ map (\<lambda>_. label) pain_starts
                           @ map (\<lambda>_. label * 100) base_starts))"

text \<open>\<^verbatim>\<open>Subject_Preprocessor._compute_slices_info\<close>: \<open>(slices_start_idxs, slices_labels)\<close>.\<close>

definition compute_slices_info ::
  "config \<Rightarrow> fval list \<Rightarrow> int \<Rightarrow> py_error + (int list \<times> int list)" where
  "compute_slices_info cfg labels f_sampling =
     (case compute_intervals_info labels of
        Inl e \<Rightarrow> Inl e
      | Inr info \<Rightarrow> slices_loop cfg f_sampling (intervals_of info) labels_pain_int ([], []))"

text \<open>
  \<^verbatim>\<open>xs[start:stop]\<close> and \<^verbatim>\<open>df.iloc[start:stop]\<close>: a negative bound counts from the
  end, and both bounds are clamped to the length, so a slice never raises.
\<close>

definition py_slice :: "'a list \<Rightarrow> int \<Rightarrow> int \<Rightarrow> 'a list" where
  "py_slice xs start stop =
     (let n = int (length xs);
          clamp = (\<lambda>i. if i < 0 then max (i + n) 0 else min i n);
          a = clamp start;
          b = clamp stop
      in take (nat (b - a)) (drop (nat a) xs))"

text \<open>
  One extracted slice: its label, the window \<open>[start_idx, end_idx]\<close> computed for it
  (both ends are meant to be included: the rows \<^verbatim>\<open>start_idx:end_idx+1\<close> are taken),
  and the rows that pandas hands out, each with its global frame index.
\<close>

record 'a slice =
  slice_label :: int
  slice_start_idx :: int
  slice_end_idx :: int
  slice_rows :: "(nat \<times> 'a) list"

fun extract_loop ::
  "config \<Rightarrow> 'a list \<Rightarrow> int \<Rightarrow> (int \<times> int) list \<Rightarrow> py_error + 'a slice list" where
  "extract_loop cfg data f_sampling [] = Inr []"
| "extract_loop cfg data f_sampling ((start_idx, label) # rest) =
     (case get_label_group label of
        Inl e \<Rightarrow> Inl e
      | Inr pain_group \<Rightarrow>
         (case lookup (slice_lengths cfg) pain_group of
            Inl e \<Rightarrow> Inl e
          | Inr len \<Rightarrow>
              let slice_len = len * f_sampling;
                  end_idx = start_idx + slice_len;
                  slice_data = py_slice (zip [0..<length data] data) start_idx (end_idx + 1)
              in (case extract_loop cfg data f_sampling rest of
                    Inl e \<Rightarrow> Inl e
                  | Inr all_slices \<Rightarrow>
                      Inr (\<lparr> slice_label = label, slice_start_idx = start_idx,
                             slice_end_idx = end_idx, slice_rows = slice_data \<rparr>
                           # all_slices))))"

text \<open>\<^verbatim>\<open>Subject_Preprocessor._extract_slices\<close>\<close>

definition extract_slices ::
  "config \<Rightarrow> 'a list \<Rightarrow> fval list \<Rightarrow> int \<Rightarrow> py_error + 'a slice list" where
  "extract_slices cfg data labels f_sampling =
     (case compute_slices_info cfg labels f_sampling of
        Inl e \<Rightarrow> Inl e
      | Inr (slices_start_idxs, slices_labels) \<Rightarrow>
          extract_loop cfg data f_sampling (zip slices_start_idxs slices_labels))"

text \<open>
  The policy of the scenario: the pain group \<^verbatim>\<open>"pH"\<close> with shift 0, length 4, minimal
  interval length 4 and minimal length 3 of the interval before; the shift and length
  of its baseline group are left open, everything else is as in \<^verbatim>\<open>config_video.py\<close>.
\<close>

definition scenario_config :: "int \<Rightarrow> int \<Rightarrow> config" where
  "scenario_config bshift blen =
     \<lparr> slice_shifts = (slice_shifts config_video)(''pH'' \<mapsto> 0, ''BpH'' \<mapsto> bshift),
       slice_lengths = (slice_lengths config_video)(''pH'' \<mapsto> 4, ''BpH'' \<mapsto> blen),
       interval_min_lengths = (interval_min_lengths config_video)(''pH'' \<mapsto> 4),
       pre_interval_min_lengths = (pre_interval_min_lengths config_video)(''pH'' \<mapsto> 3) \<rparr>"

definition scenario_labels :: "fval list" where
  "scenario_labels = of_ints [0, 0, 0, 1, 1, 1, 1, 0, 0, 0, 0, 0, 0, 0, 0]"

section \<open>The forward difference\<close>


section \<open>Repair of the feature table\<close>

text \<open>
  A feature table: one row per slice, the row index carries the label of the slice, the
  columns are the features.
\<close>

type_synonym feature_row = "int \<times> fval list"

text \<open>The \<^verbatim>\<open>strategy\<close> argument: a string, or an \<^verbatim>\<open>int\<close> or \<^verbatim>\<open>float\<close>.\<close>

datatype strategy = Str string | Num fval

text \<open>\<^verbatim>\<open>a + b\<close> on floats.\<close>

fun fadd :: "fval \<Rightarrow> fval \<Rightarrow> fval" where
  "fadd NaN _ = NaN"
| "fadd _ NaN = NaN"
| "fadd (Fin a) (Fin b) = Fin (a + b)"
| "fadd (Fin a) PInf = PInf"
| "fadd (Fin a) NInf = NInf"
| "fadd PInf (Fin b) = PInf"
| "fadd NInf (Fin b) = NInf"
| "fadd PInf PInf = PInf"
| "fadd PInf NInf = NaN"
| "fadd NInf PInf = NaN"
| "fadd NInf NInf = NInf"

text \<open>\<^verbatim>\<open>features.replace([np.inf, -np.inf], np.nan, inplace=True)\<close>\<close>

definition replace_inf :: "feature_row list \<Rightarrow> feature_row list" where
  "replace_inf features =
     map (\<lambda>(label, vs). (label, map (\<lambda>v. if v = PInf \<or> v = NInf then NaN else v) vs)) features"

text \<open>\<^verbatim>\<open>df.dropna(axis=0, how="any")\<close>: the rows without a NaN.\<close>

definition dropna :: "feature_row list \<Rightarrow> feature_row list" where
  "dropna features = filter (\<lambda>(label, vs). NaN \<notin> set vs) features"

text \<open>
  \<^verbatim>\<open>data_label.mean()\<close> for one column: the mean of the entries that are not NaN,
  and NaN when there is none. The sum is the exact sum: where the float64 sum of the
  column overflows, pandas returns an infinity and this definition a finite number.
\<close>

definition column_mean :: "fval list \<Rightarrow> fval" where
  "column_mean col =
     (let present = filter (\<lambda>v. v \<noteq> NaN) col
      in if present = [] then NaN
         else fdiv_int (foldl fadd (Fin 0) present) (int (length present)))"

text \<open>\<^verbatim>\<open>df.fillna(value=means, axis=0)\<close> on one row: a NaN in column \<open>j\<close> becomes \<open>means ! j\<close>.\<close>

definition fillna_row :: "fval list \<Rightarrow> fval list \<Rightarrow> fval list" where
  "fillna_row means vs = map (\<lambda>(v, m). if v = NaN then m else v) (zip vs means)"

text \<open>
  One round of the loop of line 461: the rows of one label are filled with the column
  means over the rows of that label and written back in place.
\<close>

definition fill_label :: "int \<Rightarrow> feature_row list \<Rightarrow> feature_row list" where
  "fill_label label features =
     (let data_label = filter (\<lambda>(l, vs). l = label) features;
          ncols = (case features of [] \<Rightarrow> 0 | (l, vs) # _ \<Rightarrow> length vs);
          means = map (\<lambda>j. column_mean (map (\<lambda>(l, vs). vs ! j) data_label)) [0..<ncols]
      in map (\<lambda>(l, vs). if l = label then (l, fillna_row means vs) else (l, vs)) features)"

text \<open>
  \<^verbatim>\<open>Subject_Preprocessor._repair_features\<close>. The result is what the \<^verbatim>\<open>return\<close>
  statement hands to the caller: \<open>Some\<close> table, or \<open>None\<close> for Python's \<^verbatim>\<open>None\<close>, which
  is what \<^verbatim>\<open>dropna(..., inplace=True)\<close> returns.
\<close>

definition repair_features ::
  "feature_row list \<Rightarrow> strategy \<Rightarrow> py_error + feature_row list option" where
  "repair_features features strategy =
     (let features1 = replace_inf features
      in if strategy = Str ''delete'' then Inr None
         else if strategy = Str ''mean'' then
           Inr (Some (dropna (fold fill_label (sort (remdups (map fst features1))) features1)))
         else (case strategy of
                 Num replacement \<Rightarrow>
                   Inr (Some (map (\<lambda>(l, vs). (l, map (\<lambda>v. if v = NaN then replacement else v) vs))
                                features1))
               | Str _ \<Rightarrow> Inl ValueError))"

section \<open>The adjacency matrix from the counts\<close>

text \<open>\<^verbatim>\<open>a / b\<close> of two numpy integers: a float, never an exception.\<close>

definition int_true_divide :: "int \<Rightarrow> int \<Rightarrow> fval" where
  "int_true_divide a b = fdiv_int (Fin (real_of_int a)) b"

text \<open>
  \<^verbatim>\<open>compute_rel_AU_freq_cond_symm\<close>: the count tables are addressed by the names of the
  Action Units, the result holds one weight for each pair of names.
\<close>

definition compute_rel_AU_freq_cond_symm ::
  "string list \<Rightarrow> (string \<Rightarrow> string \<Rightarrow> int) \<Rightarrow> (string \<Rightarrow> string \<Rightarrow> int)
     \<Rightarrow> (string \<times> string) \<rightharpoonup> fval" where
  "compute_rel_AU_freq_cond_symm AU_names df_counts_and df_counts_or =
     map_of (concat (map (\<lambda>AUi. map (\<lambda>AUj.
        ((AUi, AUj), int_true_divide (df_counts_and AUi AUj) (df_counts_or AUi AUj)))
        AU_names) AU_names))"

section \<open>The frequency analysis\<close>

text \<open>
  What the files of one subject hold: the label of each frame and the OpenFace tables,
  each table a list of columns.
\<close>

type_synonym table = "fval list list"

record subject_files =
  file_labels :: "fval list"
  file_all :: table
  file_AUr :: table
  file_AUc :: table
  file_pose :: table
  file_fl2d :: table
  file_fl3d :: table

text \<open>
  \<^verbatim>\<open>OpenFace_Raw_Dataset.load_data\<close> called with a string for \<^verbatim>\<open>target_channels\<close>.
  A string that is none of the five keywords is handed to \<^verbatim>\<open>pd.read_csv\<close> as
  \<^verbatim>\<open>usecols\<close>, and pandas refuses a \<^verbatim>\<open>usecols\<close> that is not list-like with a ValueError.
\<close>

definition load_data :: "subject_files \<Rightarrow> string \<Rightarrow> py_error + table" where
  "load_data subj target_channels =
     (if target_channels = [] then Inr (file_all subj)
      else if target_channels = ''AUr'' then Inr (file_AUr subj)
      else if target_channels = ''AUc'' then Inr (file_AUc subj)
      else if target_channels = ''pose'' then Inr (file_pose subj)
      else if target_channels = ''fl2d'' then Inr (file_fl2d subj)
      else if target_channels = ''fl3d'' then Inr (file_fl3d subj)
      else Inl ValueError)"

definition labels_valid :: "int list" where
  "labels_valid = [0, 1, 2, 3, 4, 5, 6, -1, -2, -3, -4, -5, -6]"

text \<open>
  A count table: for each label of \<open>labels_valid\<close> and each pair of columns one count.
\<close>

type_synonym counts = "int list list list"

text \<open>
  \<^verbatim>\<open>count_pair_occurrences\<close> with the default \<^verbatim>\<open>eps_activity=1.0\<close>. The row mask is
  \<^verbatim>\<open>(labels == label) & comparator(...)\<close>; numpy broadcasts a label array of length 1
  and raises on any other length that differs from the number of rows. The count is
  \<^verbatim>\<open>.iloc[:,0].count()\<close>: the selected rows whose first column is not NaN.
\<close>

definition count_pair_occurrences ::
  "table \<Rightarrow> fval list \<Rightarrow> (bool \<Rightarrow> bool \<Rightarrow> bool) \<Rightarrow> py_error + counts" where
  "count_pair_occurrences df_AU_data labels comparator =
     (let n = (case df_AU_data of [] \<Rightarrow> 0 | c # _ \<Rightarrow> length c);
          eps_activity = Fin 1
      in if df_AU_data = [] then Inr (map (\<lambda>label. []) labels_valid)
         else if length labels \<noteq> n \<and> length labels \<noteq> 1 then Inl ValueError
         else
           let labels' = (if length labels = n then labels else replicate n (hd labels))
           in Inr (map (\<lambda>label. map (\<lambda>AUi. map (\<lambda>AUj.
                 int (length (filter (\<lambda>k. feq (labels' ! k) (Fin (real_of_int label))
                                          \<and> comparator (fge (AUi ! k) eps_activity)
                                                       (fge (AUj ! k) eps_activity)
                                          \<and> hd df_AU_data ! k \<noteq> NaN)
                                [0..<n])))
                 df_AU_data) df_AU_data) labels_valid))"

text \<open>The five results of the analysis of one subject, and of the aggregation.\<close>

record totals =
  counts_AUc_and :: counts
  counts_AUc_or :: counts
  counts_AUr_and :: counts
  counts_AUr_or :: counts
  nof_frames_per_label :: "int list"

definition add_counts :: "counts \<Rightarrow> counts \<Rightarrow> counts" where
  "add_counts a b = map2 (map2 (map2 (+))) a b"

definition add_totals :: "totals \<Rightarrow> totals \<Rightarrow> totals" where
  "add_totals a b =
     \<lparr> counts_AUc_and = add_counts (counts_AUc_and a) (counts_AUc_and b),
       counts_AUc_or = add_counts (counts_AUc_or a) (counts_AUc_or b),
       counts_AUr_and = add_counts (counts_AUr_and a) (counts_AUr_and b),
       counts_AUr_or = add_counts (counts_AUr_or a) (counts_AUr_or b),
       nof_frames_per_label = map2 (+) (nof_frames_per_label a) (nof_frames_per_label b) \<rparr>"

text \<open>The tables of zeros allocated for \<open>nc\<close> classification and \<open>nr\<close> regression channels.\<close>

definition zero_totals :: "nat \<Rightarrow> nat \<Rightarrow> totals" where
  "zero_totals nc nr =
     \<lparr> counts_AUc_and = map (\<lambda>label. replicate nc (replicate nc 0)) labels_valid,
       counts_AUc_or = map (\<lambda>label. replicate nc (replicate nc 0)) labels_valid,
       counts_AUr_and = map (\<lambda>label. replicate nr (replicate nr 0)) labels_valid,
       counts_AUr_or = map (\<lambda>label. replicate nr (replicate nr 0)) labels_valid,
       nof_frames_per_label = map (\<lambda>label. 0) labels_valid \<rparr>"

text \<open>\<^verbatim>\<open>if eps_conf:\<close> for an argument that is \<^verbatim>\<open>None\<close> or a float.\<close>

definition truthy :: "fval option \<Rightarrow> bool" where
  "truthy eps_conf = (eps_conf \<noteq> None \<and> eps_conf \<noteq> Some (Fin 0))"

text \<open>\<^verbatim>\<open>a > b\<close> on floats.\<close>

definition fgt :: "fval \<Rightarrow> fval \<Rightarrow> bool" where
  "fgt a b = (fge a b \<and> \<not> feq a b)"

text \<open>
  The loading and the optional confidence filter, lines 63 to 73 and again lines 161 to
  170: \<open>(labels, AUc_data, AUr_data)\<close>. Were the confidence column loaded, its one-column
  mask would blank every entry of the two tables, and the labels are filtered by their
  own value.
\<close>

definition load_subject ::
  "subject_files \<Rightarrow> fval option \<Rightarrow> py_error + (fval list \<times> table \<times> table)" where
  "load_subject subj eps_conf =
     (case (load_data subj ''AUc'', load_data subj ''AUr'') of
        (Inr AUc_data, Inr AUr_data) \<Rightarrow>
          if truthy eps_conf then
            (if \<not> (fgt (the eps_conf) (Fin 0) \<and> fle (the eps_conf) (Fin 1))
             then Inl AssertionError
             else (case load_data subj ''confidence'' of
                     Inl e \<Rightarrow> Inl e
                   | Inr confidence \<Rightarrow>
                       Inr (filter (\<lambda>l. fgt l (the eps_conf)) (file_labels subj),
                            map (map (\<lambda>v. NaN)) AUc_data,
                            map (map (\<lambda>v. NaN)) AUr_data)))
          else Inr (file_labels subj, AUc_data, AUr_data)
      | _ \<Rightarrow> Inl ValueError)"

text \<open>The four count tables and the frames per label of the loaded data.\<close>

definition count_subject :: "fval list \<times> table \<times> table \<Rightarrow> py_error + totals" where
  "count_subject loaded =
     (case loaded of (labels, AUc_data, AUr_data) \<Rightarrow>
       (case (count_pair_occurrences AUc_data labels (\<and>),
              count_pair_occurrences AUc_data labels (\<or>),
              count_pair_occurrences AUr_data labels (\<and>),
              count_pair_occurrences AUr_data labels (\<or>)) of
          (Inr c_and, Inr c_or, Inr r_and, Inr r_or) \<Rightarrow>
            Inr \<lparr> counts_AUc_and = c_and, counts_AUc_or = c_or,
                  counts_AUr_and = r_and, counts_AUr_or = r_or,
                  nof_frames_per_label =
                    map (\<lambda>label. int (length (filter (\<lambda>l. feq l (Fin (real_of_int label)))
                                                labels)))
                      labels_valid \<rparr>
        | _ \<Rightarrow> Inl ValueError))"

text \<open>\<^verbatim>\<open>_subject_frequency_analysis(subject_id, eps_conf=None)\<close>\<close>

definition subject_frequency_analysis ::
  "subject_files \<Rightarrow> fval option \<Rightarrow> py_error + totals" where
  "subject_frequency_analysis subj eps_conf =
     (case load_subject subj eps_conf of
        Inl e \<Rightarrow> Inl e
      | Inr loaded \<Rightarrow> count_subject loaded)"

text \<open>
  The data directory: the subject ids in the order of \<^verbatim>\<open>dataset.subject_list\<close>, each
  with its files, and the numbers of classification and regression channels of the
  header. The constructor \<^verbatim>\<open>OpenFace_Raw_Dataset()\<close> reads the header from the first
  csv file, \<^verbatim>\<open>glob.glob(self.root_data + "/*.csv")[0]\<close>, and raises in a directory
  without csv files, that is without subjects.
\<close>

record raw_dataset =
  subject_files_of :: "(string \<times> subject_files) list"
  n_AUc :: nat
  n_AUr :: nat

text \<open>
  \<^verbatim>\<open>frequency_analysis_parallel(eps_conf=None)\<close>: the workers are started as
  \<^verbatim>\<open>_subject_frequency_analysis(subj_id)\<close>, without the threshold, and their results
  are summed afterwards. The result is what is written to the files.
\<close>

fun join_results :: "totals \<Rightarrow> (py_error + totals) list \<Rightarrow> py_error + totals" where
  "join_results acc [] = Inr acc"
| "join_results acc (Inl e # rs) = Inl e"
| "join_results acc (Inr r # rs) = join_results (add_totals acc r) rs"

definition frequency_analysis_parallel ::
  "raw_dataset \<Rightarrow> string list \<Rightarrow> fval option \<Rightarrow> py_error + totals" where
  "frequency_analysis_parallel dataset subjects_no_use eps_conf =
     (if subject_files_of dataset = [] then Inl IndexError
      else join_results (zero_totals (n_AUc dataset) (n_AUr dataset))
             (map (\<lambda>(subj_id, subj). subject_frequency_analysis subj None)
                (filter (\<lambda>(subj_id, subj). subj_id \<notin> set subjects_no_use)
                   (subject_files_of dataset))))"

text \<open>
  \<^verbatim>\<open>frequency_analysis(eps_conf=None)\<close>: the loop over the subjects, lines 158 to 179,
  with the totals it has accumulated when it ends.
\<close>

fun frequency_analysis_loop ::
  "string list \<Rightarrow> fval option \<Rightarrow> totals \<Rightarrow> (string \<times> subject_files) list
     \<Rightarrow> py_error + totals" where
  "frequency_analysis_loop subjects_no_use eps_conf acc [] = Inr acc"
| "frequency_analysis_loop subjects_no_use eps_conf acc ((subject_id, subj) # rest) =
     (if subject_id \<in> set subjects_no_use
      then frequency_analysis_loop subjects_no_use eps_conf acc rest
      else (case load_subject subj eps_conf of
              Inl e \<Rightarrow> Inl e
            | Inr loaded \<Rightarrow>
               (case count_subject loaded of
                  Inl e \<Rightarrow> Inl e
                | Inr r \<Rightarrow>
                    frequency_analysis_loop subjects_no_use eps_conf (add_totals acc r) rest)))"

text \<open>
  After the loop the function asks \<^verbatim>\<open>os.path.exist(export_dir)\<close>; the module
  \<^verbatim>\<open>os.path\<close> has \<^verbatim>\<open>exists\<close> but no \<^verbatim>\<open>exist\<close>, so the call raises before anything is
  written.
\<close>

definition frequency_analysis ::
  "raw_dataset \<Rightarrow> string list \<Rightarrow> fval option \<Rightarrow> py_error + totals" where
  "frequency_analysis dataset subjects_no_use eps_conf =
     (if subject_files_of dataset = [] then Inl IndexError
      else (case frequency_analysis_loop subjects_no_use eps_conf
                   (zero_totals (n_AUc dataset) (n_AUr dataset)) (subject_files_of dataset) of
              Inl e \<Rightarrow> Inl e
            | Inr written \<Rightarrow> Inl AttributeError))"

section \<open>The k-fold split\<close>

text \<open>
  \<^verbatim>\<open>OpenFace_Features_Dataset\<close>, as far as the split reads it: the subject id of every
  sample (the property \<^verbatim>\<open>subjects\<close>), from which \<^verbatim>\<open>subject_list\<close> is taken with
  \<^verbatim>\<open>unique().sort_values()\<close>.
\<close>

record features_dataset =
  subjects :: "nat list"

definition subject_list :: "features_dataset \<Rightarrow> nat list" where
  "subject_list dataset = sort (remdups (subjects dataset))"

text \<open>
  \<^verbatim>\<open>KFold(n_splits=k, shuffle=False).split(subjects)\<close> of scikit-learn, for \<open>n\<close>
  elements, as the library documents it: fewer than two splits and more splits than
  elements are refused with a ValueError; the first \<open>n mod k\<close> test folds have
  \<open>n div k + 1\<close> elements and the others \<open>n div k\<close>; the test folds are consecutive
  blocks of indices, the training indices of a fold are all the others.
\<close>

definition fold_sizes :: "nat \<Rightarrow> nat \<Rightarrow> nat list" where
  "fold_sizes k n = map (\<lambda>f. if f < n mod k then n div k + 1 else n div k) [0..<k]"

fun test_blocks :: "nat \<Rightarrow> nat list \<Rightarrow> nat list list" where
  "test_blocks current [] = []"
| "test_blocks current (fold_size # rest) =
     [current..<current + fold_size] # test_blocks (current + fold_size) rest"

definition kfold_split :: "nat \<Rightarrow> nat \<Rightarrow> py_error + (nat list \<times> nat list) list" where
  "kfold_split k n =
     (if k \<le> 1 then Inl ValueError
      else if n < k then Inl ValueError
      else Inr (map (\<lambda>test. (filter (\<lambda>i. i \<notin> set test) [0..<n], test))
                  (test_blocks 0 (fold_sizes k n))))"

text \<open>
  \<^verbatim>\<open>OpenFace_Features_Dataset.get_train_test_idxs\<close>: the positions of the samples of
  the test subjects, and the positions of all other samples.
\<close>

definition get_train_test_idxs :: "features_dataset \<Rightarrow> nat list \<Rightarrow> nat list \<times> nat list" where
  "get_train_test_idxs dataset test_subjects =
     (let subj_mask = map (\<lambda>s. s \<in> set test_subjects) (subjects dataset)
      in (nonzero (map Not subj_mask), nonzero subj_mask))"

text \<open>What one round of the fold loop of \<^verbatim>\<open>kfold_CV\<close> prepares, lines 177 to 179.\<close>

record cv_fold =
  train_subjects :: "nat list"
  test_subjects :: "nat list"
  train_idxs :: "nat list"
  test_idxs :: "nat list"

definition prepare_fold :: "features_dataset \<Rightarrow> nat list \<times> nat list \<Rightarrow> cv_fold" where
  "prepare_fold dataset split =
     (case split of (train, test) \<Rightarrow>
        let train_subjcets = map (\<lambda>i. subject_list dataset ! i) train;
            test_subjects = map (\<lambda>i. subject_list dataset ! i) test;
            idxs = get_train_test_idxs dataset test_subjects
        in \<lparr> train_subjects = train_subjcets, test_subjects = test_subjects,
             train_idxs = fst idxs, test_idxs = snd idxs \<rparr>)"

definition cv_folds :: "features_dataset \<Rightarrow> nat \<Rightarrow> py_error + cv_fold list" where
  "cv_folds dataset k =
     (case kfold_split k (length (subject_list dataset)) of
        Inl e \<Rightarrow> Inl e
      | Inr splits \<Rightarrow> Inr (map (prepare_fold dataset) splits))"

section \<open>The cross-validation loop\<close>

text \<open>
  The model, the optimizer and the loaders are outside the repository. They enter as
  three functions on the values \<open>'p\<close> of the model parameters: the reset, one training
  epoch of a fold, and the test accuracy of a fold.
\<close>

record 'p trainer =
  reset_params :: "'p \<Rightarrow> 'p"
  train_epoch :: "cv_fold \<Rightarrow> nat \<Rightarrow> 'p \<Rightarrow> 'p"
  test_accuracy :: "cv_fold \<Rightarrow> 'p \<Rightarrow> real"

text \<open>
  The parameter tensors of the model live in a store. The reset and the optimizer
  write into them in place, and \<^verbatim>\<open>model.state_dict()\<close> returns references to them,
  not copies: \<open>best_params\<close> holds an address.
\<close>

record 'p cv_state =
  store :: "nat \<Rightarrow> 'p"
  best_params :: "nat option"
  best_acc :: real
  test_acc_history :: "real list list"

text \<open>The loop over the epochs of one fold, lines 209 to 242.\<close>

fun epoch_loop ::
  "'p trainer \<Rightarrow> nat \<Rightarrow> cv_fold \<Rightarrow> nat list \<Rightarrow> 'p cv_state \<Rightarrow> 'p cv_state" where
  "epoch_loop tr model fld [] st = st"
| "epoch_loop tr model fld (epoch # rest) st =
     (let store1 = (store st)(model := train_epoch tr fld epoch (store st model));
          test_acc = test_accuracy tr fld (store1 model);
          st1 = st\<lparr> store := store1 \<rparr>;
          st2 = (if test_acc > best_acc st1
                 then st1\<lparr> best_acc := test_acc, best_params := Some model \<rparr>
                 else st1);
          st3 = st2\<lparr> test_acc_history :=
                       butlast (test_acc_history st2)
                       @ [last (test_acc_history st2) @ [test_acc]] \<rparr>
      in epoch_loop tr model fld rest st3)"

text \<open>
  The loop over the folds, lines 171 to 242: the reset, the evaluation before the
  first epoch (its accuracy opens the history of the fold), the epochs.
\<close>

fun fold_loop ::
  "'p trainer \<Rightarrow> nat \<Rightarrow> nat \<Rightarrow> cv_fold list \<Rightarrow> 'p cv_state \<Rightarrow> 'p cv_state" where
  "fold_loop tr model num_epochs [] st = st"
| "fold_loop tr model num_epochs (fld # rest) st =
     (let store1 = (store st)(model := reset_params tr (store st model));
          test_acc = test_accuracy tr fld (store1 model);
          st1 = st\<lparr> store := store1,
                    test_acc_history := test_acc_history st @ [[test_acc]] \<rparr>
      in fold_loop tr model num_epochs rest
           (epoch_loop tr model fld [0..<num_epochs] st1))"

text \<open>
  \<^verbatim>\<open>kfold_CV\<close>: the state when the function returns \<open>(history, best_params)\<close>.
\<close>

definition kfold_CV ::
  "'p trainer \<Rightarrow> features_dataset \<Rightarrow> (nat \<Rightarrow> 'p) \<Rightarrow> nat \<Rightarrow> nat \<Rightarrow> nat
     \<Rightarrow> py_error + 'p cv_state" where
  "kfold_CV tr dataset store0 model k num_epochs =
     (case cv_folds dataset k of
        Inl e \<Rightarrow> Inl e
      | Inr folds \<Rightarrow>
          Inr (fold_loop tr model num_epochs folds
                 \<lparr> store = store0, best_params = None, best_acc = 0,
                   test_acc_history = [] \<rparr>))"

text \<open>
  What the caller finds in the returned \<open>best_params\<close> (and what \<^verbatim>\<open>torch.save\<close> then
  writes): the present contents of the tensors it refers to.
\<close>

definition returned_best_params :: "'p cv_state \<Rightarrow> 'p option" where
  "returned_best_params st = map_option (store st) (best_params st)"

text \<open>
  For the comparison, the checkpoints of a run: the test accuracy and the value of the
  model parameters after every epoch of every fold, in the order of the run.
\<close>

fun epoch_checkpoints ::
  "'p trainer \<Rightarrow> cv_fold \<Rightarrow> nat list \<Rightarrow> 'p \<Rightarrow> (real \<times> 'p) list \<times> 'p" where
  "epoch_checkpoints tr fld [] p = ([], p)"
| "epoch_checkpoints tr fld (epoch # rest) p =
     (let p1 = train_epoch tr fld epoch p;
          (cps, p2) = epoch_checkpoints tr fld rest p1
      in ((test_accuracy tr fld p1, p1) # cps, p2))"

fun fold_checkpoints ::
  "'p trainer \<Rightarrow> nat \<Rightarrow> cv_fold list \<Rightarrow> 'p \<Rightarrow> (real \<times> 'p) list" where
  "fold_checkpoints tr num_epochs [] p = []"
| "fold_checkpoints tr num_epochs (fld # rest) p =
     (let (cps, p1) = epoch_checkpoints tr fld [0..<num_epochs] (reset_params tr p)
      in cps @ fold_checkpoints tr num_epochs rest p1)"

definition checkpoints ::
  "'p trainer \<Rightarrow> features_dataset \<Rightarrow> 'p \<Rightarrow> nat \<Rightarrow> nat \<Rightarrow> py_error + (real \<times> 'p) list" where
  "checkpoints tr dataset p0 k num_epochs =
     (case cv_folds dataset k of
        Inl e \<Rightarrow> Inl e
      | Inr folds \<Rightarrow> Inr (fold_checkpoints tr num_epochs folds p0))"

section \<open>Comparison of two entries of an adjacency matrix\<close>

text \<open>\<^verbatim>\<open>adjacency(AUi, AUj) == adjacency(AUj, AUi)\<close>, for two entries that exist.\<close>

definition adjacency_eq :: "((string \<times> string) \<rightharpoonup> fval) \<Rightarrow> string \<Rightarrow> string \<Rightarrow> bool" where
  "adjacency_eq adjacency AUi AUj =
     (case (adjacency (AUi, AUj), adjacency (AUj, AUi)) of
        (Some x, Some y) \<Rightarrow> feq x y
      | _ \<Rightarrow> False)"

text \<open>
  Two count tables for examples: an Action Unit that is active in no frame of the
  chosen labels, and two Action Units that are active together in 3 frames and at
  least one of them in 12 frames.
\<close>

definition counts_never_active :: "string \<Rightarrow> string \<Rightarrow> int" where
  "counts_never_active AUi AUj = 0"

definition counts_example_and :: "string \<Rightarrow> string \<Rightarrow> int" where
  "counts_example_and AUi AUj = (if AUi = AUj then 7 else 3)"

definition counts_example_or :: "string \<Rightarrow> string \<Rightarrow> int" where
  "counts_example_or AUi AUj = (if AUi = AUj then 7 else 12)"

section \<open>Examples for the cross-validation and the frequency analysis\<close>

text \<open>
  A run of the cross-validation on numbers: the model parameters are one number, the
  reset puts 0, an epoch on a fold adds 1 and the id of the first test subject of the
  fold, and the test accuracy is 90 at the parameter value 4 and 50 elsewhere.
\<close>

definition example_trainer :: "nat trainer" where
  "example_trainer =
     \<lparr> reset_params = (\<lambda>p. 0),
       train_epoch = (\<lambda>fld epoch p. p + 1 + hd (test_subjects fld)),
       test_accuracy = (\<lambda>fld p. if p = 4 then 90 else 50) \<rparr>"

definition example_features_dataset :: features_dataset where
  "example_features_dataset = \<lparr> subjects = [3, 3, 5, 8, 8, 8, 9] \<rparr>"

definition example_store :: "nat \<Rightarrow> nat" where
  "example_store address = 0"

text \<open>
  A data directory with one subject: three frames with the labels 0, 1, 1, one
  classification channel and one regression channel.
\<close>

definition example_subject_files :: subject_files where
  "example_subject_files =
     \<lparr> file_labels = [Fin 0, Fin 1, Fin 1],
       file_all = [[Fin 2, Fin 0, Fin 3], [Fin 1, Fin 1, Fin 0]],
       file_AUr = [[Fin 2, Fin 0, Fin 3]],
       file_AUc = [[Fin 1, Fin 1, Fin 0]],
       file_pose = [], file_fl2d = [], file_fl3d = [] \<rparr>"

definition example_raw_dataset :: raw_dataset where
  "example_raw_dataset =
     \<lparr> subject_files_of = [(''001'', example_subject_files)], n_AUc = 1, n_AUr = 1 \<rparr>"

section \<open>Interval segmentation: the partition of the frames\<close>

lemma nonzero_Cons_True: "nonzero (True # T) = 0 # map Suc (nonzero T)"
proof -
  have "[0..<Suc (length T)] = 0 # map Suc [0..<length T]"
    by (simp add: upt_conv_Cons map_Suc_upt del: upt_Suc)
  then show ?thesis
    by (simp add: nonzero_def filter_map comp_def del: upt_Suc)
qed

lemma nonzero_snoc_True: "nonzero (T @ [True]) = nonzero T @ [length T]"
proof -
  have "filter (\<lambda>i. (T @ [True]) ! i) [0..<length T] = filter (\<lambda>i. T ! i) [0..<length T]"
    by (rule filter_cong) (auto simp: nth_append)
  then show ?thesis by (simp add: nonzero_def)
qed

lemma set_nonzero: "set (nonzero T) = {i. i < length T \<and> T ! i}"
  by (auto simp: nonzero_def)

lemma sorted_nonzero: "sorted_wrt (<) (nonzero T)"
  unfolding nonzero_def by (rule sorted_wrt_filter) simp

lemma nonzero_gap:
  assumes j: "j < length T" "T ! j"
    and k: "k \<le> length (nonzero T)"
    and lo: "0 < k \<Longrightarrow> nonzero T ! (k - 1) < j"
    and hi: "k < length (nonzero T) \<Longrightarrow> j < nonzero T ! k"
  shows False
proof -
  from j have "j \<in> set (nonzero T)" by (simp add: set_nonzero)
  then obtain a where a: "a < length (nonzero T)" "nonzero T ! a = j"
    by (auto simp: in_set_conv_nth)
  have mono: "\<And>x y. x < y \<Longrightarrow> y < length (nonzero T) \<Longrightarrow> nonzero T ! x < nonzero T ! y"
    using sorted_nonzero sorted_wrt_nth_less by blast
  have mono_le: "\<And>x y. x \<le> y \<Longrightarrow> y < length (nonzero T) \<Longrightarrow> nonzero T ! x \<le> nonzero T ! y"
  proof -
    fix x y assume "x \<le> y" "y < length (nonzero T)"
    then show "nonzero T ! x \<le> nonzero T ! y"
      using mono[of x y] by (cases "x = y") auto
  qed
  have "a < k"
  proof (rule ccontr)
    assume "\<not> a < k"
    then have ka: "k \<le> a" by simp
    with a have kl: "k < length (nonzero T)" by simp
    from hi[OF kl] a have "nonzero T ! a < nonzero T ! k" by simp
    moreover have "nonzero T ! k \<le> nonzero T ! a"
      using ka a mono_le by blast
    ultimately show False by simp
  qed
  then have kpos: "0 < k" by simp
  from lo[OF kpos] a have lt: "nonzero T ! (k - 1) < nonzero T ! a" by simp
  have "a \<le> k - 1" using \<open>a < k\<close> by simp
  moreover have "k - 1 < length (nonzero T)" using k kpos by simp
  ultimately have "nonzero T ! a \<le> nonzero T ! (k - 1)"
    using mono_le by blast
  with lt show False by simp
qed

lemma is_interval_start_nth:
  "i + 1 < length labels \<Longrightarrow>
   (map2 fne (butlast labels) (tl labels)) ! i = fne (labels ! i) (labels ! (i + 1))"
  by (simp add: nth_butlast nth_tl)


lemma feq_imp_eq: "feq a b \<Longrightarrow> a = b"
  by (cases a; cases b) auto

lemma idxs_shape:
  assumes "labels \<noteq> []"
  shows "nonzero (is_interval_start labels)
           = 0 # map Suc (nonzero (map2 fne (butlast labels) (tl labels)))"
    and "nonzero (rotate1 (is_interval_start labels))
           = nonzero (map2 fne (butlast labels) (tl labels)) @ [length labels - 1]"
proof -
  show "nonzero (is_interval_start labels)
           = 0 # map Suc (nonzero (map2 fne (butlast labels) (tl labels)))"
    by (simp add: is_interval_start_def nonzero_Cons_True)
  have "length (map2 fne (butlast labels) (tl labels)) = length labels - 1"
    by simp
  then show "nonzero (rotate1 (is_interval_start labels))
           = nonzero (map2 fne (butlast labels) (tl labels)) @ [length labels - 1]"
    by (simp add: is_interval_start_def nonzero_snoc_True)
qed

lemma seg_step:
  assumes E: "E = nonzero (map2 fne (butlast labels) (tl labels))"
    and k: "k \<le> length E"
    and lo: "(0 # map Suc E) ! k \<le> i"
    and hi: "i < (E @ [length labels - 1]) ! k"
  shows "feq (labels ! i) (labels ! (i + 1))"
proof -
  let ?T = "map2 fne (butlast labels) (tl labels)"
  have lenT: "length ?T = length labels - 1" by simp
  have im: "i < length labels - 1"
  proof (cases "k < length E")
    case True
    then have "E ! k \<in> set E" by simp
    then have "E ! k < length ?T" unfolding E set_nonzero by simp
    moreover from hi True have "i < E ! k" by (simp add: nth_append)
    ultimately show ?thesis by simp
  next
    case False
    with k have "k = length E" by simp
    with hi show ?thesis by (simp add: nth_append)
  qed
  have "\<not> ?T ! i"
  proof
    assume Ti: "?T ! i"
    have j: "i < length ?T" using im by simp
    have kk: "k \<le> length (nonzero ?T)" using k E by simp
    have l: "0 < k \<Longrightarrow> nonzero ?T ! (k - 1) < i"
    proof -
      assume "0 < k"
      then obtain k' where k': "k = Suc k'" by (cases k) auto
      with lo k have "Suc (E ! k') \<le> i" by simp
      then show ?thesis using k' E by simp
    qed
    have h: "k < length (nonzero ?T) \<Longrightarrow> i < nonzero ?T ! k"
      using hi E by (simp add: nth_append)
    from nonzero_gap[OF j Ti kk l h] show False .
  qed
  moreover have "?T ! i = fne (labels ! i) (labels ! (i + 1))"
    using im by (intro is_interval_start_nth) simp
  ultimately show "feq (labels ! i) (labels ! (i + 1))" by (simp add: fne_def)
qed

lemma feq_trans: "feq a b \<Longrightarrow> feq b c \<Longrightarrow> feq a c"
  by (cases a; cases b; cases c) auto

lemma seg_pair:
  assumes E: "E = nonzero (map2 fne (butlast labels) (tl labels))"
    and k: "k \<le> length E"
    and lo: "(0 # map Suc E) ! k \<le> i"
    and ij: "i < j"
    and hi: "j \<le> (E @ [length labels - 1]) ! k"
  shows "feq (labels ! i) (labels ! j)"
  using ij hi
proof (induction j)
  case 0
  then show ?case by simp
next
  case (Suc j)
  from Suc.prems lo have lo': "(0 # map Suc E) ! k \<le> j" by simp
  from Suc.prems have hi': "j < (E @ [length labels - 1]) ! k" by simp
  from seg_step[OF E k lo' hi'] have st: "feq (labels ! j) (labels ! Suc j)" by simp
  show ?case
  proof (cases "i = j")
    case True
    with st show ?thesis by simp
  next
    case False
    with Suc.prems have "i < j" by simp
    from Suc.IH[OF this] hi' have "feq (labels ! i) (labels ! j)" by simp
    from feq_trans[OF this st] show ?thesis .
  qed
qed

lemma seg_boundary:
  assumes E: "E = nonzero (map2 fne (butlast labels) (tl labels))"
    and k: "k < length E"
  shows "fne (labels ! (E ! k)) (labels ! Suc (E ! k))"
proof -
  let ?T = "map2 fne (butlast labels) (tl labels)"
  from k have "E ! k \<in> set E" by simp
  then have a: "E ! k < length ?T" and b: "?T ! (E ! k)" unfolding E set_nonzero by simp_all
  from a have "E ! k + 1 < length labels" by simp
  from is_interval_start_nth[OF this] b show ?thesis by simp
qed

lemma seg_nonempty:
  assumes E: "E = nonzero (map2 fne (butlast labels) (tl labels))"
    and k: "k \<le> length E"
  shows "(0 # map Suc E) ! k \<le> (E @ [length labels - 1]) ! k"
proof (cases k)
  case 0
  then show ?thesis by simp
next
  case (Suc k')
  let ?T = "map2 fne (butlast labels) (tl labels)"
  have k': "k' < length E" using Suc k by simp
  show ?thesis
  proof (cases "k < length E")
    case True
    have "sorted_wrt (<) E" unfolding E by (rule sorted_nonzero)
    then have "E ! k' < E ! k" using Suc True sorted_wrt_nth_less by blast
    then show ?thesis using Suc True k' by (simp add: nth_append)
  next
    case False
    with k have kl: "k = length E" by simp
    from k' have "E ! k' \<in> set E" by simp
    then have "E ! k' < length ?T" unfolding E set_nonzero by simp
    then show ?thesis using Suc kl k' by (simp add: nth_append)
  qed
qed


lemma relabel_length:
  "length (relabel ils (NaN # butlast ils) (is_baseline_interval ils (NaN # butlast ils)))
     = length ils"
  by (cases "ils = []") (simp_all add: relabel_def is_baseline_interval_def)

text \<open>
  Claim C2. For a label array that is not empty, \<^verbatim>\<open>_compute_intervals_info\<close> returns
  four arrays of one length, at least one interval, and the intervals partition the
  frames: the first starts at frame 0, every other starts one frame after the end of the
  interval before it, the last ends at the last frame, no interval is empty and its
  duration is \<open>end - start + 1\<close>. Equal and different labels are compared as the code
  compares them, with \<^verbatim>\<open>==\<close> and \<^verbatim>\<open>!=\<close> of floats: the labels of any two frames of
  one interval are \<^verbatim>\<open>==\<close> (they are the same number, and no interval of two or more
  frames holds a NaN), and the labels of the last frame of an interval and of the first
  frame of the next are \<^verbatim>\<open>!=\<close>. A frame with the label NaN is therefore always an
  interval of its own.
\<close>

theorem intervals_partition:
  assumes ne: "labels \<noteq> []"
  shows "\<exists>starts ends ils durs.
     compute_intervals_info labels = Inr (starts, ends, ils, durs)
     \<and> starts \<noteq> [] \<and> length ends = length starts
     \<and> length ils = length starts \<and> length durs = length starts
     \<and> starts ! 0 = 0
     \<and> ends ! (length starts - 1) = length labels - 1
     \<and> (\<forall>k. k + 1 < length starts \<longrightarrow> starts ! (k + 1) = ends ! k + 1)
     \<and> (\<forall>k < length starts. starts ! k \<le> ends ! k
            \<and> durs ! k = int (ends ! k) - int (starts ! k) + 1)
     \<and> (\<forall>k < length starts. \<forall>i j. starts ! k \<le> i \<and> i < j \<and> j \<le> ends ! k
            \<longrightarrow> feq (labels ! i) (labels ! j))
     \<and> (\<forall>k. k + 1 < length starts
            \<longrightarrow> fne (labels ! (ends ! k)) (labels ! (starts ! (k + 1))))"
proof -
  define E where "E = nonzero (map2 fne (butlast labels) (tl labels))"
  define starts where "starts = 0 # map Suc E"
  define ends where "ends = E @ [length labels - 1]"
  define raw where "raw = map (\<lambda>i. labels ! i) starts"
  define ils where "ils = relabel raw (NaN # butlast raw)
                            (is_baseline_interval raw (NaN # butlast raw))"
  define durs where "durs = map2 (\<lambda>e s. int e - int s + 1) ends starts"
  have s1: "nonzero (is_interval_start labels) = starts"
    and s2: "nonzero (rotate1 (is_interval_start labels)) = ends"
    using idxs_shape[OF ne] by (simp_all add: starts_def ends_def E_def)
  have ci: "compute_intervals_info labels = Inr (starts, ends, ils, durs)"
    using ne by (simp add: compute_intervals_info_def Let_def s1 s2 ils_def durs_def raw_def)
  have len: "length starts = Suc (length E)" "length ends = Suc (length E)"
    by (simp_all add: starts_def ends_def)
  have p1: "starts \<noteq> []" by (simp add: starts_def)
  have p2: "length ends = length starts" by (simp add: len)
  have p3: "length ils = length starts" by (simp add: ils_def relabel_length raw_def)
  have p4: "length durs = length starts" by (simp add: durs_def len)
  have p5: "starts ! 0 = 0" by (simp add: starts_def)
  have p6: "ends ! (length starts - 1) = length labels - 1"
    by (simp add: len) (simp add: ends_def)
  have p7: "\<forall>k. k + 1 < length starts \<longrightarrow> starts ! (k + 1) = ends ! k + 1"
    by (simp add: len) (simp add: starts_def ends_def nth_append)
  have p8: "\<forall>k < length starts. starts ! k \<le> ends ! k
            \<and> durs ! k = int (ends ! k) - int (starts ! k) + 1"
  proof (intro allI impI)
    fix k assume k: "k < length starts"
    then have kE: "k \<le> length E" by (simp add: len)
    have "starts ! k \<le> ends ! k"
      unfolding starts_def ends_def by (rule seg_nonempty[OF E_def kE])
    moreover have "durs ! k = int (ends ! k) - int (starts ! k) + 1"
      using k by (simp add: durs_def p2)
    ultimately show "starts ! k \<le> ends ! k
            \<and> durs ! k = int (ends ! k) - int (starts ! k) + 1" by simp
  qed
  have p9: "\<forall>k < length starts. \<forall>i j. starts ! k \<le> i \<and> i < j \<and> j \<le> ends ! k
            \<longrightarrow> feq (labels ! i) (labels ! j)"
  proof (intro allI impI)
    fix k i j assume k: "k < length starts"
      and ij: "starts ! k \<le> i \<and> i < j \<and> j \<le> ends ! k"
    from k have kE: "k \<le> length E" by (simp add: len)
    from ij have lo: "(0 # map Suc E) ! k \<le> i" and lt: "i < j"
      and hi: "j \<le> (E @ [length labels - 1]) ! k"
      by (simp_all add: starts_def ends_def)
    from seg_pair[OF E_def kE lo lt hi] show "feq (labels ! i) (labels ! j)" .
  qed
  have p10: "\<forall>k. k + 1 < length starts
            \<longrightarrow> fne (labels ! (ends ! k)) (labels ! (starts ! (k + 1)))"
  proof (intro allI impI)
    fix k assume "k + 1 < length starts"
    then have kE: "k < length E" by (simp add: len)
    from seg_boundary[OF E_def kE] kE
    show "fne (labels ! (ends ! k)) (labels ! (starts ! (k + 1)))"
      by (simp add: starts_def ends_def nth_append)
  qed
  from ci p1 p2 p3 p4 p5 p6 p7 p8 p9 p10 show ?thesis by blast
qed

theorem intervals_partition_witness:
  "compute_intervals_info [Fin 0, Fin 0, NaN, NaN, Fin 1, Fin 1, Fin 1]
     = Inr ([0, 2, 3, 4], [1, 2, 3, 6], [NaN, NaN, NaN, Fin 1], [2, 1, 1, 3])
   \<and> (\<exists>starts ends ils durs.
     compute_intervals_info [Fin 0, Fin 0, NaN, NaN, Fin 1, Fin 1, Fin 1]
       = Inr (starts, ends, ils, durs)
     \<and> starts \<noteq> [] \<and> length ends = length starts
     \<and> length ils = length starts \<and> length durs = length starts
     \<and> starts ! 0 = 0
     \<and> ends ! (length starts - 1) = length [Fin 0, Fin 0, NaN, NaN, Fin 1, Fin 1, Fin 1] - 1
     \<and> (\<forall>k. k + 1 < length starts \<longrightarrow> starts ! (k + 1) = ends ! k + 1)
     \<and> (\<forall>k < length starts. starts ! k \<le> ends ! k
            \<and> durs ! k = int (ends ! k) - int (starts ! k) + 1)
     \<and> (\<forall>k < length starts. \<forall>i j. starts ! k \<le> i \<and> i < j \<and> j \<le> ends ! k
            \<longrightarrow> feq ([Fin 0, Fin 0, NaN, NaN, Fin 1, Fin 1, Fin 1] ! i)
                    ([Fin 0, Fin 0, NaN, NaN, Fin 1, Fin 1, Fin 1] ! j))
     \<and> (\<forall>k. k + 1 < length starts
            \<longrightarrow> fne ([Fin 0, Fin 0, NaN, NaN, Fin 1, Fin 1, Fin 1] ! (ends ! k))
                    ([Fin 0, Fin 0, NaN, NaN, Fin 1, Fin 1, Fin 1] ! (starts ! (k + 1)))))"
proof -
  have ne: "[Fin 0, Fin 0, NaN, NaN, Fin 1, Fin 1, Fin 1] \<noteq> []" by simp
  have ev: "compute_intervals_info [Fin 0, Fin 0, NaN, NaN, Fin 1, Fin 1, Fin 1]
     = Inr ([0, 2, 3, 4], [1, 2, 3, 6], [NaN, NaN, NaN, Fin 1], [2, 1, 1, 3])"
    by code_simp
  from ev intervals_partition[OF ne] show ?thesis by blast
qed

section \<open>Interval segmentation: the relabelling\<close>

text \<open>
  The mask of line 325 does not look at the interval before: it is True exactly for the
  intervals whose own label is \<^verbatim>\<open>== 0\<close>.
\<close>

lemma zero_and_eq: "zero_and b = Fin 0"
  by (simp add: zero_and_def)

lemma is_baseline_interval_eq:
  "is_baseline_interval ils pre = map2 (\<lambda>l p. feq l (Fin 0)) ils pre"
  by (simp add: is_baseline_interval_def zero_and_eq zip_map2 split_def)

text \<open>
  Claim C1. The claim is that an interval is relabelled exactly when its label is 0 and
  the interval before it has a pain label, and that every other interval keeps its
  label. The code relabels every interval whose label is 0 to 100 times the label of
  the interval before, whatever that label is: after an interval with the invalid label
  -10 the baseline interval becomes -1000, and a baseline interval that opens the
  recording, which has no interval before it, becomes NaN.
\<close>

theorem relabel_ignores_predecessor:
  "compute_intervals_info (of_ints [-10, 0])
     = Inr ([0, 1], [0, 1], [Fin (-10), Fin (-1000)], [1, 1])
   \<and> compute_intervals_info (of_ints [0, 1, 0])
     = Inr ([0, 1, 2], [0, 1, 2], [NaN, Fin 1, Fin 100], [1, 1, 1])"
  by code_simp

section \<open>The forward difference\<close>




section \<open>Slice extraction\<close>

text \<open>
  Claim C3. The claim is that the scenario (three baseline frames, four frames of pain
  label 1, eight baseline frames, sampling factor 1, the policy \<^verbatim>\<open>pH\<close> of the scenario)
  gives exactly one pain slice with label 1 and the window from frame 3 to frame 7, and
  exactly one baseline slice from the interval relabelled to 100. The code gives no pain
  slice: the baseline interval that opens the recording is relabelled to NaN (see C1), so
  the interval before the pain interval is no baseline interval for line 281. What is
  left depends on the baseline policy alone: with shift 0 and length 4 the one baseline
  slice with the window from frame 7 to frame 11, with the shift 4 and length 6 of
  \<^verbatim>\<open>config_video.py\<close> nothing.
\<close>

theorem scenario_has_no_pain_slice:
  "compute_intervals_info scenario_labels
     = Inr ([0, 3, 7], [2, 6, 14], [NaN, Fin 1, Fin 100], [3, 4, 8])
   \<and> compute_slices_info (scenario_config 0 4) scenario_labels 1 = Inr ([7], [100])
   \<and> extract_slices (scenario_config 0 4) (replicate 15 ()) scenario_labels 1
     = Inr [\<lparr> slice_label = 100, slice_start_idx = 7, slice_end_idx = 11,
              slice_rows = [(7, ()), (8, ()), (9, ()), (10, ()), (11, ())] \<rparr>]
   \<and> compute_slices_info (scenario_config 4 6) scenario_labels 1 = Inr ([], [])"
  by code_simp

text \<open>
  The rows that a slice holds are rows of the data: pandas clamps the bounds of
  \<^verbatim>\<open>iloc[start_idx:end_idx+1]\<close>, so nothing outside the data is read.
\<close>

lemma py_slice_subset: "set (py_slice xs start stop) \<subseteq> set xs"
proof -
  have "set (take n (drop m xs)) \<subseteq> set xs" for n m
    using set_take_subset set_drop_subset by fastforce
  then show ?thesis by (simp add: py_slice_def Let_def)
qed

lemma extract_loop_rows_in_range:
  "extract_loop cfg data f_sampling starts = Inr all_slices \<Longrightarrow> s \<in> set all_slices
     \<Longrightarrow> (i, r) \<in> set (slice_rows s) \<Longrightarrow> i < length data"
proof (induction starts arbitrary: all_slices)
  case Nil
  then show ?case by simp
next
  case (Cons a starts)
  obtain start_idx label where a: "a = (start_idx, label)" by (cases a)
  from Cons.prems(1) a obtain pain_group len rest where
    rest: "extract_loop cfg data f_sampling starts = Inr rest"
    and all: "all_slices =
       \<lparr> slice_label = label, slice_start_idx = start_idx,
         slice_end_idx = start_idx + len * f_sampling,
         slice_rows = py_slice (zip [0..<length data] data) start_idx
                        (start_idx + len * f_sampling + 1) \<rparr> # rest"
    by (auto simp: Let_def split: sum.splits)
  show ?case
  proof (cases "s \<in> set rest")
    case True
    from Cons.IH[OF rest True Cons.prems(3)] show ?thesis .
  next
    case False
    with Cons.prems(2) all have
      "slice_rows s = py_slice (zip [0..<length data] data) start_idx
                        (start_idx + len * f_sampling + 1)"
      by auto
    with Cons.prems(3) py_slice_subset have "(i, r) \<in> set (zip [0..<length data] data)"
      by fastforce
    then have "i \<in> set [0..<length data]" by (rule set_zip_leftD)
    then show ?thesis by simp
  qed
qed

text \<open>
  Claim C9. The claim is that every frame index of the window of an accepted slice lies
  in \<open>[0, total_frames - 1]\<close>. The window of a slice is \<open>[start_idx, start_idx + length]\<close>
  with both ends included, while the checks of lines 290 to 299 only keep
  \<open>start_idx + length\<close> at or below the end of the interval plus one. For a recording of
  11 frames that ends with a baseline interval of 10 frames after pain label 1, the
  baseline slice of \<^verbatim>\<open>config_video.py\<close> (shift 4, length 6) has the window from frame 5
  to frame 11, one past the last frame 10; for a recording of 15 frames that ends with
  two baseline frames after four frames of pain, the pain slice has the window from
  frame 9 to frame 15. In both cases the slice holds six rows instead of seven.
\<close>

theorem window_ends_past_last_frame:
  "extract_slices config_video (replicate 11 ()) (of_ints [1, 0, 0, 0, 0, 0, 0, 0, 0, 0, 0]) 1
     = Inr [\<lparr> slice_label = 100, slice_start_idx = 5, slice_end_idx = 11,
              slice_rows = [(5, ()), (6, ()), (7, ()), (8, ()), (9, ()), (10, ())] \<rparr>]
   \<and> extract_slices config_video (replicate 15 ())
        (of_ints [1, 0, 0, 0, 0, 0, 0, 0, 0, 1, 1, 1, 1, 0, 0]) 1
     = Inr [\<lparr> slice_label = 1, slice_start_idx = 9, slice_end_idx = 15,
              slice_rows = [(9, ()), (10, ()), (11, ()), (12, ()), (13, ()), (14, ())] \<rparr>]"
  by code_simp

section \<open>Repair of the feature table\<close>

text \<open>
  Claim C4. The claim is that for each of the three supported strategies the repair
  step returns a feature table without NaN and without infinities. For the strategy
  \<^verbatim>\<open>"delete"\<close> the code returns the result of \<^verbatim>\<open>dropna(..., inplace=True)\<close>, which
  is \<^verbatim>\<open>None\<close>: the caller gets no table, whatever the input is.
\<close>

theorem repair_delete_returns_none:
  "repair_features features (Str ''delete'') = Inr None"
  by (simp add: repair_features_def)

section \<open>The adjacency matrix of the method "symm"\<close>

lemma map_of_determined:
  "\<forall>(k, v) \<in> set xs. v = g k \<Longrightarrow> k \<in> fst ` set xs \<Longrightarrow> map_of xs k = Some (g k)"
  by (induction xs) (auto split: if_splits)

lemma symm_entry:
  assumes "AUi \<in> set AU_names" "AUj \<in> set AU_names"
  shows "compute_rel_AU_freq_cond_symm AU_names df_counts_and df_counts_or (AUi, AUj)
           = Some (int_true_divide (df_counts_and AUi AUj) (df_counts_or AUi AUj))"
proof -
  let ?xs = "concat (map (\<lambda>AUi. map (\<lambda>AUj.
        ((AUi, AUj), int_true_divide (df_counts_and AUi AUj) (df_counts_or AUi AUj)))
        AU_names) AU_names)"
  have v: "\<forall>(k, v) \<in> set ?xs.
             v = (\<lambda>(a, b). int_true_divide (df_counts_and a b) (df_counts_or a b)) k"
    by auto
  have k: "(AUi, AUj) \<in> fst ` set ?xs"
    using assms by (auto simp: image_iff)
  from map_of_determined[OF v k] show ?thesis
    by (simp add: compute_rel_AU_freq_cond_symm_def)
qed

lemma feq_int_true_divide:
  "feq (int_true_divide a b) (int_true_divide a b) \<longleftrightarrow> \<not> (a = 0 \<and> b = 0)"
  by (simp add: int_true_divide_def)

text \<open>
  Claim C7, as stated: for count tables that are symmetric,
  \<^verbatim>\<open>adjacency(AUi, AUj) == adjacency(AUj, AUi)\<close> for every pair. It fails for a pair
  that is active in no frame: the weight is \<^verbatim>\<open>0 / 0\<close>, which is NaN, and NaN is not
  equal to itself.
\<close>

theorem symm_nan_counterexample:
  "\<not> adjacency_eq
       (compute_rel_AU_freq_cond_symm [''AU01_c''] counts_never_active counts_never_active)
       ''AU01_c'' ''AU01_c''"
  by code_simp

text \<open>
  Claim C7, amended. For count tables that are symmetric on the Action Units of the
  table, the method "symm" puts the same value at \<open>(AUi, AUj)\<close> and at \<open>(AUj, AUi)\<close>, and
  the two entries compare equal with \<^verbatim>\<open>==\<close> exactly when the AND-count and the OR-count
  of the pair are not both 0 (when they are, both entries are NaN).
\<close>

theorem symm_adjacency_symmetric:
  assumes "\<forall>a \<in> set AU_names. \<forall>b \<in> set AU_names. df_counts_and a b = df_counts_and b a"
    and "\<forall>a \<in> set AU_names. \<forall>b \<in> set AU_names. df_counts_or a b = df_counts_or b a"
    and "AUi \<in> set AU_names" and "AUj \<in> set AU_names"
  shows "compute_rel_AU_freq_cond_symm AU_names df_counts_and df_counts_or (AUi, AUj)
           = compute_rel_AU_freq_cond_symm AU_names df_counts_and df_counts_or (AUj, AUi)
       \<and> compute_rel_AU_freq_cond_symm AU_names df_counts_and df_counts_or (AUi, AUj) \<noteq> None
       \<and> (adjacency_eq (compute_rel_AU_freq_cond_symm AU_names df_counts_and df_counts_or)
             AUi AUj
           \<longleftrightarrow> \<not> (df_counts_and AUi AUj = 0 \<and> df_counts_or AUi AUj = 0))"
proof -
  from assms have a: "df_counts_and AUj AUi = df_counts_and AUi AUj"
    and b: "df_counts_or AUj AUi = df_counts_or AUi AUj" by auto
  from symm_entry[OF assms(3) assms(4)] symm_entry[OF assms(4) assms(3)] a b
  show ?thesis
    by (simp add: adjacency_eq_def feq_int_true_divide)
qed

theorem symm_adjacency_symmetric_witness:
  "counts_example_and ''AU01_c'' ''AU02_c'' = counts_example_and ''AU02_c'' ''AU01_c''
   \<and> counts_example_or ''AU01_c'' ''AU02_c'' = counts_example_or ''AU02_c'' ''AU01_c''
   \<and> compute_rel_AU_freq_cond_symm [''AU01_c'', ''AU02_c''] counts_example_and
        counts_example_or (''AU01_c'', ''AU02_c'') = Some (Fin (1 / 4))
   \<and> compute_rel_AU_freq_cond_symm [''AU01_c'', ''AU02_c''] counts_example_and
        counts_example_or (''AU01_c'', ''AU02_c'')
      = compute_rel_AU_freq_cond_symm [''AU01_c'', ''AU02_c''] counts_example_and
          counts_example_or (''AU02_c'', ''AU01_c'')
   \<and> adjacency_eq (compute_rel_AU_freq_cond_symm [''AU01_c'', ''AU02_c''] counts_example_and
        counts_example_or) ''AU01_c'' ''AU02_c''"
proof -
  have s1: "\<forall>a \<in> set [''AU01_c'', ''AU02_c'']. \<forall>b \<in> set [''AU01_c'', ''AU02_c''].
       counts_example_and a b = counts_example_and b a"
    by (simp add: counts_example_and_def)
  have s2: "\<forall>a \<in> set [''AU01_c'', ''AU02_c'']. \<forall>b \<in> set [''AU01_c'', ''AU02_c''].
       counts_example_or a b = counts_example_or b a"
    by (simp add: counts_example_or_def)
  have i: "''AU01_c'' \<in> set [''AU01_c'', ''AU02_c'']" by simp
  have j: "''AU02_c'' \<in> set [''AU01_c'', ''AU02_c'']" by simp
  have ev: "compute_rel_AU_freq_cond_symm [''AU01_c'', ''AU02_c''] counts_example_and
        counts_example_or (''AU01_c'', ''AU02_c'') = Some (Fin (1 / 4))"
    by code_simp
  have nz: "\<not> (counts_example_and ''AU01_c'' ''AU02_c'' = 0
               \<and> counts_example_or ''AU01_c'' ''AU02_c'' = 0)"
    by (simp add: counts_example_and_def)
  from symm_adjacency_symmetric[OF s1 s2 i j] s1 s2 i j ev nz show ?thesis by blast
qed

section \<open>The k-fold split\<close>

lemma test_blocks_length: "length (test_blocks c sizes) = length sizes"
  by (induction sizes arbitrary: c) simp_all

lemma test_blocks_ge:
  "f < length sizes \<Longrightarrow> x \<in> set (test_blocks c sizes ! f) \<Longrightarrow> c \<le> x"
proof (induction sizes arbitrary: c f)
  case Nil
  then show ?case by simp
next
  case (Cons s ss)
  show ?case
  proof (cases f)
    case 0
    with Cons.prems show ?thesis by simp
  next
    case (Suc g)
    with Cons.prems have "g < length ss" "x \<in> set (test_blocks (c + s) ss ! g)" by simp_all
    from Cons.IH[OF this] show ?thesis by simp
  qed
qed

lemma test_blocks_lt:
  "f < length sizes \<Longrightarrow> x \<in> set (test_blocks c sizes ! f) \<Longrightarrow> x < c + sum_list sizes"
proof (induction sizes arbitrary: c f)
  case Nil
  then show ?case by simp
next
  case (Cons s ss)
  show ?case
  proof (cases f)
    case 0
    with Cons.prems show ?thesis by simp
  next
    case (Suc g)
    with Cons.prems have "g < length ss" "x \<in> set (test_blocks (c + s) ss ! g)" by simp_all
    from Cons.IH[OF this] show ?thesis by simp
  qed
qed

lemma test_blocks_cover:
  "c \<le> i \<Longrightarrow> i < c + sum_list sizes
     \<Longrightarrow> \<exists>f. f < length sizes \<and> i \<in> set (test_blocks c sizes ! f)"
proof (induction sizes arbitrary: c)
  case Nil
  then show ?case by simp
next
  case (Cons s ss)
  show ?case
  proof (cases "i < c + s")
    case True
    with Cons.prems have "0 < length (s # ss) \<and> i \<in> set (test_blocks c (s # ss) ! 0)" by simp
    then show ?thesis by blast
  next
    case False
    with Cons.prems have "c + s \<le> i" "i < (c + s) + sum_list ss" by simp_all
    from Cons.IH[OF this] obtain g where "g < length ss" "i \<in> set (test_blocks (c + s) ss ! g)"
      by blast
    then have "Suc g < length (s # ss) \<and> i \<in> set (test_blocks c (s # ss) ! Suc g)" by simp
    then show ?thesis by blast
  qed
qed

lemma test_blocks_disjoint:
  "f < length sizes \<Longrightarrow> g < length sizes \<Longrightarrow> i \<in> set (test_blocks c sizes ! f)
     \<Longrightarrow> i \<in> set (test_blocks c sizes ! g) \<Longrightarrow> f = g"
proof (induction sizes arbitrary: c f g)
  case Nil
  then show ?case by simp
next
  case (Cons s ss)
  show ?case
  proof (cases f)
    case f0: 0
    show ?thesis
    proof (cases g)
      case 0
      with f0 show ?thesis by simp
    next
      case (Suc g')
      with Cons.prems have "g' < length ss" "i \<in> set (test_blocks (c + s) ss ! g')" by simp_all
      from test_blocks_ge[OF this] have "c + s \<le> i" .
      moreover from f0 Cons.prems have "i < c + s" by simp
      ultimately show ?thesis by simp
    qed
  next
    case fS: (Suc f')
    with Cons.prems have f': "f' < length ss" "i \<in> set (test_blocks (c + s) ss ! f')"
      by simp_all
    show ?thesis
    proof (cases g)
      case 0
      with Cons.prems have "i < c + s" by simp
      moreover from test_blocks_ge[OF f'] have "c + s \<le> i" .
      ultimately show ?thesis by simp
    next
      case (Suc g')
      with Cons.prems have "g' < length ss" "i \<in> set (test_blocks (c + s) ss ! g')" by simp_all
      from Cons.IH[OF f'(1) this(1) f'(2) this(2)] fS Suc show ?thesis by simp
    qed
  qed
qed

lemma sum_list_fold_sizes: "0 < k \<Longrightarrow> sum_list (fold_sizes k n) = n"
proof -
  assume k: "0 < k"
  have r: "n mod k < k" using k by simp
  have "sum_list (fold_sizes k n)
          = (\<Sum>f = 0..<k. if f < n mod k then n div k + 1 else n div k)"
    by (simp add: fold_sizes_def interv_sum_list_conv_sum_set_nat)
  also have "\<dots> = (\<Sum>f = 0..<k. n div k + (if f < n mod k then 1 else 0))"
    by (rule sum.cong) auto
  also have "\<dots> = k * (n div k) + (\<Sum>f = 0..<k. if f < n mod k then 1 else 0)"
    by (simp add: sum.distrib)
  also have "(\<Sum>f = 0..<k. if f < n mod k then 1 else (0::nat))
               = card {f \<in> {0..<k}. f < n mod k}"
    by (simp add: sum.If_cases Int_def)
  also have "{f \<in> {0..<k}. f < n mod k} = {0..<n mod k}"
    using r by auto
  finally show ?thesis by simp
qed

lemma set_nonzero': "set (nonzero msk) = {i. i < length msk \<and> msk ! i}"
  by (auto simp: nonzero_def)

lemma train_test_idxs_partition:
  "set (fst (get_train_test_idxs dataset ts)) \<inter> set (snd (get_train_test_idxs dataset ts)) = {}
   \<and> set (fst (get_train_test_idxs dataset ts)) \<union> set (snd (get_train_test_idxs dataset ts))
       = {0..<length (subjects dataset)}"
  by (auto simp: get_train_test_idxs_def Let_def set_nonzero')

text \<open>
  The sample indices are derived from subject membership: the test indices are the
  positions of the samples whose subject is a test subject, ascending, and the training
  indices are the positions of all other samples.
\<close>

lemma idxs_by_membership:
  "fst (get_train_test_idxs dataset ts)
     = filter (\<lambda>i. subjects dataset ! i \<notin> set ts) [0..<length (subjects dataset)]"
  "snd (get_train_test_idxs dataset ts)
     = filter (\<lambda>i. subjects dataset ! i \<in> set ts) [0..<length (subjects dataset)]"
  by (auto simp: get_train_test_idxs_def Let_def nonzero_def intro: filter_cong)

lemma subjects_in_subject_list:
  "i < length (subjects dataset) \<Longrightarrow> subjects dataset ! i \<in> set (subject_list dataset)"
  by (simp add: subject_list_def)

lemma subject_list_distinct: "distinct (subject_list dataset)"
  by (simp add: subject_list_def)

lemma nth_in_block_iff:
  assumes d: "distinct sl" and i: "i < length sl" and b: "\<forall>j \<in> set block. j < length sl"
  shows "sl ! i \<in> set (map (\<lambda>j. sl ! j) block) \<longleftrightarrow> i \<in> set block"
proof
  assume "sl ! i \<in> set (map (\<lambda>j. sl ! j) block)"
  then obtain j where j: "j \<in> set block" "sl ! j = sl ! i" by auto
  with b have "j < length sl" by simp
  with d i j(2) have "j = i" by (simp add: nth_eq_iff_index_eq)
  with j show "i \<in> set block" by simp
next
  assume "i \<in> set block"
  then show "sl ! i \<in> set (map (\<lambda>j. sl ! j) block)" by auto
qed

lemma cv_folds_shape:
  assumes "2 \<le> k" "k \<le> length (subject_list dataset)"
  shows "cv_folds dataset k =
     Inr (map (\<lambda>test. prepare_fold dataset
                 (filter (\<lambda>i. i \<notin> set test) [0..<length (subject_list dataset)], test))
            (test_blocks 0 (fold_sizes k (length (subject_list dataset)))))"
  using assms by (simp add: cv_folds_def kfold_split_def comp_def)

lemma prepare_fold_fields:
  "test_subjects (prepare_fold dataset (train, test)) = map (\<lambda>i. subject_list dataset ! i) test"
  "train_subjects (prepare_fold dataset (train, test)) = map (\<lambda>i. subject_list dataset ! i) train"
  "train_idxs (prepare_fold dataset (train, test))
     = fst (get_train_test_idxs dataset (map (\<lambda>i. subject_list dataset ! i) test))"
  "test_idxs (prepare_fold dataset (train, test))
     = snd (get_train_test_idxs dataset (map (\<lambda>i. subject_list dataset ! i) test))"
  by (simp_all add: prepare_fold_def Let_def)

text \<open>
  Claim C8, as stated: for every fold count \<open>k\<close> that does not exceed the number of
  subjects, every subject is in the test set of exactly one fold. It fails for
  \<open>k = 1\<close>: scikit-learn refuses fewer than two splits, so the run raises before the
  first fold and no subject is in any test set.
\<close>

theorem kfold_one_fold_counterexample:
  "cv_folds \<lparr> subjects = [7, 7, 7] \<rparr> 1 = Inl ValueError
   \<and> 1 \<le> length (subject_list \<lparr> subjects = [7, 7, 7] \<rparr>)"
  by code_simp

text \<open>
  Claim C8, amended. For every dataset and every fold count \<open>k\<close> with \<open>2 \<le> k\<close> and \<open>k\<close>
  not above the number of subjects, the split gives \<open>k\<close> folds; every subject is a test
  subject of exactly one fold; within each fold the training and the test subjects are
  disjoint and are together all subjects; the test sample indices of the fold are the
  positions, ascending, of the samples whose subject is a test subject of the fold, the
  training sample indices the positions of the samples whose subject is a training
  subject of the fold; and these two are disjoint and are together all sample indices
  of the dataset.
\<close>

theorem kfold_partition:
  assumes k2: "2 \<le> k" and kn: "k \<le> length (subject_list dataset)"
  shows "\<exists>folds. cv_folds dataset k = Inr folds \<and> length folds = k
     \<and> (\<forall>s \<in> set (subject_list dataset).
           \<exists>!f. f < k \<and> s \<in> set (test_subjects (folds ! f)))
     \<and> (\<forall>f < k.
           set (train_subjects (folds ! f)) \<inter> set (test_subjects (folds ! f)) = {}
         \<and> set (train_subjects (folds ! f)) \<union> set (test_subjects (folds ! f))
             = set (subject_list dataset)
         \<and> test_idxs (folds ! f)
             = filter (\<lambda>i. subjects dataset ! i \<in> set (test_subjects (folds ! f)))
                 [0..<length (subjects dataset)]
         \<and> train_idxs (folds ! f)
             = filter (\<lambda>i. subjects dataset ! i \<in> set (train_subjects (folds ! f)))
                 [0..<length (subjects dataset)]
         \<and> set (train_idxs (folds ! f)) \<inter> set (test_idxs (folds ! f)) = {}
         \<and> set (train_idxs (folds ! f)) \<union> set (test_idxs (folds ! f))
             = {0..<length (subjects dataset)})"
proof -
  define sl where "sl = subject_list dataset"
  define n where "n = length sl"
  define sizes where "sizes = fold_sizes k n"
  define blocks where "blocks = test_blocks 0 sizes"
  define folds where "folds = map (\<lambda>test. prepare_fold dataset
                 (filter (\<lambda>i. i \<notin> set test) [0..<n], test)) blocks"
  have d: "distinct sl" unfolding sl_def by (rule subject_list_distinct)
  have res: "cv_folds dataset k = Inr folds"
    using cv_folds_shape[OF k2 kn] by (simp add: folds_def blocks_def sizes_def n_def sl_def)
  have len_sizes: "length sizes = k" by (simp add: sizes_def fold_sizes_def)
  have sum_sizes: "sum_list sizes = n"
    unfolding sizes_def using k2 by (intro sum_list_fold_sizes) simp
  have len_blocks: "length blocks = k" by (simp add: blocks_def test_blocks_length len_sizes)
  have len_folds: "length folds = k" by (simp add: folds_def len_blocks)
  have block_lt: "i < n" if "f < k" "i \<in> set (blocks ! f)" for f i
    using test_blocks_lt[of f sizes i 0] that by (simp add: blocks_def len_sizes sum_sizes)
  have test_f: "test_subjects (folds ! f) = map (\<lambda>i. sl ! i) (blocks ! f)" if "f < k" for f
    using that by (simp add: folds_def len_blocks prepare_fold_fields sl_def)
  have train_f: "train_subjects (folds ! f)
                   = map (\<lambda>i. sl ! i) (filter (\<lambda>i. i \<notin> set (blocks ! f)) [0..<n])"
    if "f < k" for f
    using that by (simp add: folds_def len_blocks prepare_fold_fields sl_def)
  have idxs_f: "train_idxs (folds ! f) = fst (get_train_test_idxs dataset (test_subjects (folds ! f)))
              \<and> test_idxs (folds ! f) = snd (get_train_test_idxs dataset (test_subjects (folds ! f)))"
    if "f < k" for f
    using that by (simp add: folds_def len_blocks prepare_fold_fields)
  have mem: "sl ! i \<in> set (test_subjects (folds ! f)) \<longleftrightarrow> i \<in> set (blocks ! f)"
    if "f < k" "i < n" for f i
  proof -
    have "\<forall>j \<in> set (blocks ! f). j < length sl" using block_lt[OF that(1)] by (simp add: n_def)
    from nth_in_block_iff[OF d _ this, of i] that show ?thesis by (simp add: test_f n_def)
  qed
  have p1: "\<forall>s \<in> set sl. \<exists>!f. f < k \<and> s \<in> set (test_subjects (folds ! f))"
  proof
    fix s assume "s \<in> set sl"
    then obtain i where i: "i < n" "sl ! i = s" by (auto simp: in_set_conv_nth n_def)
    from test_blocks_cover[of 0 i sizes] i(1) obtain f where
      f: "f < k" "i \<in> set (blocks ! f)"
      by (auto simp: blocks_def len_sizes sum_sizes)
    show "\<exists>!f. f < k \<and> s \<in> set (test_subjects (folds ! f))"
    proof (rule ex1I[of _ f])
      show "f < k \<and> s \<in> set (test_subjects (folds ! f))"
        using f mem[OF f(1) i(1)] i(2) by simp
    next
      fix g assume g: "g < k \<and> s \<in> set (test_subjects (folds ! g))"
      with mem[of g i] i have "i \<in> set (blocks ! g)" by simp
      with test_blocks_disjoint[of g sizes f i 0] g f show "g = f"
        by (simp add: blocks_def len_sizes)
    qed
  qed
  have p2: "\<forall>f < k.
           set (train_subjects (folds ! f)) \<inter> set (test_subjects (folds ! f)) = {}
         \<and> set (train_subjects (folds ! f)) \<union> set (test_subjects (folds ! f)) = set sl
         \<and> test_idxs (folds ! f)
             = filter (\<lambda>i. subjects dataset ! i \<in> set (test_subjects (folds ! f)))
                 [0..<length (subjects dataset)]
         \<and> train_idxs (folds ! f)
             = filter (\<lambda>i. subjects dataset ! i \<in> set (train_subjects (folds ! f)))
                 [0..<length (subjects dataset)]
         \<and> set (train_idxs (folds ! f)) \<inter> set (test_idxs (folds ! f)) = {}
         \<and> set (train_idxs (folds ! f)) \<union> set (test_idxs (folds ! f))
             = {0..<length (subjects dataset)}"
  proof (intro allI impI)
    fix f assume f: "f < k"
    have a: "set (train_subjects (folds ! f)) \<inter> set (test_subjects (folds ! f)) = {}"
    proof (rule ccontr)
      assume "set (train_subjects (folds ! f)) \<inter> set (test_subjects (folds ! f)) \<noteq> {}"
      then obtain s where s1: "s \<in> set (train_subjects (folds ! f))"
        and s2: "s \<in> set (test_subjects (folds ! f))" by auto
      from s1 obtain i where i: "i < n" "i \<notin> set (blocks ! f)" "s = sl ! i"
        by (auto simp: train_f[OF f])
      with mem[OF f i(1)] s2 show False by simp
    qed
    have b: "set (train_subjects (folds ! f)) \<union> set (test_subjects (folds ! f)) = set sl"
    proof
      show "set (train_subjects (folds ! f)) \<union> set (test_subjects (folds ! f)) \<subseteq> set sl"
        using block_lt[OF f] by (auto simp: train_f[OF f] test_f[OF f] n_def)
      show "set sl \<subseteq> set (train_subjects (folds ! f)) \<union> set (test_subjects (folds ! f))"
      proof
        fix s assume "s \<in> set sl"
        then obtain i where i: "i < n" "sl ! i = s" by (auto simp: in_set_conv_nth n_def)
        show "s \<in> set (train_subjects (folds ! f)) \<union> set (test_subjects (folds ! f))"
        proof (cases "i \<in> set (blocks ! f)")
          case True
          with i show ?thesis by (auto simp: test_f[OF f])
        next
          case False
          with i have "s \<in> set (train_subjects (folds ! f))"
            by (auto simp: train_f[OF f] image_iff)
          then show ?thesis by simp
        qed
      qed
    qed
    have c: "test_idxs (folds ! f)
             = filter (\<lambda>i. subjects dataset ! i \<in> set (test_subjects (folds ! f)))
                 [0..<length (subjects dataset)]"
      using idxs_f[OF f] by (simp add: idxs_by_membership)
    have "train_idxs (folds ! f)
             = filter (\<lambda>i. subjects dataset ! i \<notin> set (test_subjects (folds ! f)))
                 [0..<length (subjects dataset)]"
      using idxs_f[OF f] by (simp add: idxs_by_membership)
    also have "\<dots> = filter (\<lambda>i. subjects dataset ! i \<in> set (train_subjects (folds ! f)))
                 [0..<length (subjects dataset)]"
    proof (rule filter_cong[OF refl])
      fix i assume "i \<in> set [0..<length (subjects dataset)]"
      then have "subjects dataset ! i \<in> set sl"
        unfolding sl_def by (simp add: subjects_in_subject_list)
      with a b show "(subjects dataset ! i \<notin> set (test_subjects (folds ! f)))
             = (subjects dataset ! i \<in> set (train_subjects (folds ! f)))" by blast
    qed
    finally have e: "train_idxs (folds ! f)
             = filter (\<lambda>i. subjects dataset ! i \<in> set (train_subjects (folds ! f)))
                 [0..<length (subjects dataset)]" .
    from a b c e idxs_f[OF f] train_test_idxs_partition[of dataset "test_subjects (folds ! f)"]
    show "set (train_subjects (folds ! f)) \<inter> set (test_subjects (folds ! f)) = {}
         \<and> set (train_subjects (folds ! f)) \<union> set (test_subjects (folds ! f)) = set sl
         \<and> test_idxs (folds ! f)
             = filter (\<lambda>i. subjects dataset ! i \<in> set (test_subjects (folds ! f)))
                 [0..<length (subjects dataset)]
         \<and> train_idxs (folds ! f)
             = filter (\<lambda>i. subjects dataset ! i \<in> set (train_subjects (folds ! f)))
                 [0..<length (subjects dataset)]
         \<and> set (train_idxs (folds ! f)) \<inter> set (test_idxs (folds ! f)) = {}
         \<and> set (train_idxs (folds ! f)) \<union> set (test_idxs (folds ! f))
             = {0..<length (subjects dataset)}"
      by simp
  qed
  from res len_folds p1 p2 show ?thesis unfolding sl_def by blast
qed

theorem kfold_partition_witness:
  "(2::nat) \<le> 3 \<and> 3 \<le> length (subject_list \<lparr> subjects = [3, 3, 5, 8, 8, 8, 9] \<rparr>)
   \<and> cv_folds \<lparr> subjects = [3, 3, 5, 8, 8, 8, 9] \<rparr> 3
       = Inr [\<lparr> train_subjects = [8, 9], test_subjects = [3, 5],
                train_idxs = [3, 4, 5, 6], test_idxs = [0, 1, 2] \<rparr>,
              \<lparr> train_subjects = [3, 5, 9], test_subjects = [8],
                train_idxs = [0, 1, 2, 6], test_idxs = [3, 4, 5] \<rparr>,
              \<lparr> train_subjects = [3, 5, 8], test_subjects = [9],
                train_idxs = [0, 1, 2, 3, 4, 5], test_idxs = [6] \<rparr>]
   \<and> (\<exists>folds. cv_folds \<lparr> subjects = [3, 3, 5, 8, 8, 8, 9] \<rparr> 3 = Inr folds \<and> length folds = 3
     \<and> (\<forall>s \<in> set (subject_list \<lparr> subjects = [3, 3, 5, 8, 8, 8, 9] \<rparr>).
           \<exists>!f. f < 3 \<and> s \<in> set (test_subjects (folds ! f)))
     \<and> (\<forall>f < 3.
           set (train_subjects (folds ! f)) \<inter> set (test_subjects (folds ! f)) = {}
         \<and> set (train_subjects (folds ! f)) \<union> set (test_subjects (folds ! f))
             = set (subject_list \<lparr> subjects = [3, 3, 5, 8, 8, 8, 9] \<rparr>)
         \<and> test_idxs (folds ! f)
             = filter (\<lambda>i. subjects \<lparr> subjects = [3, 3, 5, 8, 8, 8, 9] \<rparr> ! i
                             \<in> set (test_subjects (folds ! f)))
                 [0..<length (subjects \<lparr> subjects = [3, 3, 5, 8, 8, 8, 9] \<rparr>)]
         \<and> train_idxs (folds ! f)
             = filter (\<lambda>i. subjects \<lparr> subjects = [3, 3, 5, 8, 8, 8, 9] \<rparr> ! i
                             \<in> set (train_subjects (folds ! f)))
                 [0..<length (subjects \<lparr> subjects = [3, 3, 5, 8, 8, 8, 9] \<rparr>)]
         \<and> set (train_idxs (folds ! f)) \<inter> set (test_idxs (folds ! f)) = {}
         \<and> set (train_idxs (folds ! f)) \<union> set (test_idxs (folds ! f))
             = {0..<length (subjects \<lparr> subjects = [3, 3, 5, 8, 8, 8, 9] \<rparr>)}))"
proof -
  have k2: "(2::nat) \<le> 3" by simp
  have kn: "3 \<le> length (subject_list \<lparr> subjects = [3, 3, 5, 8, 8, 8, 9] \<rparr>)"
    by code_simp
  have ev: "cv_folds \<lparr> subjects = [3, 3, 5, 8, 8, 8, 9] \<rparr> 3
       = Inr [\<lparr> train_subjects = [8, 9], test_subjects = [3, 5],
                train_idxs = [3, 4, 5, 6], test_idxs = [0, 1, 2] \<rparr>,
              \<lparr> train_subjects = [3, 5, 9], test_subjects = [8],
                train_idxs = [0, 1, 2, 6], test_idxs = [3, 4, 5] \<rparr>,
              \<lparr> train_subjects = [3, 5, 8], test_subjects = [9],
                train_idxs = [0, 1, 2, 3, 4, 5], test_idxs = [6] \<rparr>]"
    by code_simp
  from kfold_partition[OF k2 kn] k2 kn ev show ?thesis by blast
qed

section \<open>The best checkpoint of the cross-validation\<close>

text \<open>
  Claim C5. The claim is that the returned \<open>best_params\<close> are the parameter values of
  the checkpoint with the highest test accuracy of the run. The code stores
  \<^verbatim>\<open>model.state_dict()\<close>, which refers to the tensors of the model and is no copy, and
  the later epochs and the reset of the next fold write into the same tensors. In
  the example run of two folds with one epoch each, the checkpoints are the parameter
  value 4 with accuracy 90 (fold 1) and the value 9 with accuracy 50 (fold 2); the best
  accuracy 90 is recorded, and what the caller finds in \<open>best_params\<close> is 9, the
  parameters at the end of the run.
\<close>

theorem best_params_follow_the_model:
  "map_sum id (\<lambda>st. (returned_best_params st, best_acc st, test_acc_history st))
       (kfold_CV example_trainer example_features_dataset example_store 0 2 1)
     = Inr (Some 9, 90, [[50, 90], [50, 50]])
   \<and> checkpoints example_trainer example_features_dataset 0 2 1 = Inr [(90, 4), (50, 9)]"
  by code_simp

section \<open>Sequential and parallel frequency analysis\<close>

text \<open>The parallel analysis never looks at the confidence threshold.\<close>

lemma parallel_ignores_eps_conf:
  "frequency_analysis_parallel dataset subjects_no_use eps_conf
     = frequency_analysis_parallel dataset subjects_no_use None"
  by (simp add: frequency_analysis_parallel_def)

lemma load_subject_falsy:
  assumes "\<not> truthy eps_conf"
  shows "load_subject subj eps_conf = load_subject subj None"
proof -
  have "\<not> truthy None" by (simp add: truthy_def)
  with assms show ?thesis by (simp add: load_subject_def split: sum.splits)
qed

lemma subject_analysis_falsy:
  "\<not> truthy eps_conf \<Longrightarrow>
   (case load_subject subj eps_conf of Inl e \<Rightarrow> Inl e | Inr loaded \<Rightarrow> count_subject loaded)
     = subject_frequency_analysis subj None"
  by (simp add: subject_frequency_analysis_def load_subject_falsy)

lemma loop_step:
  "frequency_analysis_loop subjects_no_use eps_conf acc ((subject_id, subj) # rest) =
     (if subject_id \<in> set subjects_no_use
      then frequency_analysis_loop subjects_no_use eps_conf acc rest
      else (case (case load_subject subj eps_conf of
                    Inl e \<Rightarrow> Inl e | Inr loaded \<Rightarrow> count_subject loaded) of
              Inl e \<Rightarrow> Inl e
            | Inr r \<Rightarrow>
                frequency_analysis_loop subjects_no_use eps_conf (add_totals acc r) rest))"
  by (simp split: sum.splits)

text \<open>
  Without a threshold (\<^verbatim>\<open>None\<close> or 0) the loop of the sequential analysis accumulates
  what the parallel analysis writes, for every data directory that holds a subject and
  every exclusion list, errors included.
\<close>

lemma loop_eq_join:
  assumes "\<not> truthy eps_conf"
  shows "frequency_analysis_loop subjects_no_use eps_conf acc subjs
     = join_results acc
         (map (\<lambda>(subj_id, subj). subject_frequency_analysis subj None)
            (filter (\<lambda>(subj_id, subj). subj_id \<notin> set subjects_no_use) subjs))"
proof (induction subjs arbitrary: acc)
  case Nil
  then show ?case by simp
next
  case (Cons a subjs)
  obtain subject_id subj where a: "a = (subject_id, subj)" by (cases a)
  show ?case
  proof (cases "subject_id \<in> set subjects_no_use")
    case True
    with a Cons.IH show ?thesis by (simp only: loop_step) simp
  next
    case False
    show ?thesis
    proof (cases "subject_frequency_analysis subj None")
      case (Inl e)
      with a False show ?thesis
        by (simp only: loop_step subject_analysis_falsy[OF assms]) simp
    next
      case (Inr r)
      with a False Cons.IH[of "add_totals acc r"] show ?thesis
        by (simp only: loop_step subject_analysis_falsy[OF assms]) simp
    qed
  qed
qed

lemma loop_eq_parallel:
  "\<not> truthy eps_conf \<Longrightarrow> subject_files_of dataset \<noteq> [] \<Longrightarrow>
   frequency_analysis_loop subjects_no_use eps_conf
       (zero_totals (n_AUc dataset) (n_AUr dataset)) (subject_files_of dataset)
     = frequency_analysis_parallel dataset subjects_no_use eps_conf"
  by (simp add: loop_eq_join frequency_analysis_parallel_def)

text \<open>
  Claim C6. The claim is that for every set of subjects and every value of the
  confidence threshold the sequential and the parallel analysis produce the same count
  tables and frame totals. With the threshold 0.5 on a directory with one subject the
  parallel analysis ignores the threshold (its workers are started without it) and
  writes the totals of all frames, while the sequential analysis takes the confidence
  branch, where loading the column \<^verbatim>\<open>"confidence"\<close> raises. Without a threshold the
  loop of the sequential analysis reaches the same totals as the parallel one, but the
  function then raises at \<^verbatim>\<open>os.path.exist\<close> and writes nothing.
\<close>

theorem sequential_and_parallel_differ:
  "map_sum id nof_frames_per_label
       (frequency_analysis_parallel example_raw_dataset [] (Some (Fin (1 / 2))))
     = Inr [1, 2, 0, 0, 0, 0, 0, 0, 0, 0, 0, 0, 0]
   \<and> frequency_analysis_parallel example_raw_dataset [] (Some (Fin (1 / 2)))
     = frequency_analysis_parallel example_raw_dataset [] None
   \<and> frequency_analysis example_raw_dataset [] (Some (Fin (1 / 2))) = Inl ValueError
   \<and> frequency_analysis_loop [] None (zero_totals 1 1) (subject_files_of example_raw_dataset)
     = frequency_analysis_parallel example_raw_dataset [] None
   \<and> frequency_analysis example_raw_dataset [] None = Inl AttributeError"
  by code_simp

end
